theory Spec2Isabelle
  imports Complex_Main
begin

section \<open>Python values\<close>

text \<open>
  Channels are pandas Series of floats. They are modelled as lists of reals: the
  arithmetic of the model is exact, rounding of IEEE doubles is not part of it.
  Exceptions of the source are values of \<open>py_error\<close>, and a function that can raise
  returns \<open>py_error + 'a\<close>.
\<close>

datatype py_error = IndexError | ZeroDivisionError | TypeError

text \<open>Python's \<open>int(x)\<close> on a float truncates toward zero.\<close>

definition py_int :: "real \<Rightarrow> int" where
  "py_int x = (if 0 \<le> x then \<lfloor>x\<rfloor> else \<lceil>x\<rceil>)"

text \<open>\<open>series.iloc[i]\<close> for \<open>i \<ge> 0\<close> and \<open>series.iloc[-1]\<close>.\<close>

definition iloc :: "'a list \<Rightarrow> nat \<Rightarrow> py_error + 'a" where
  "iloc xs i = (if i < length xs then Inr (xs ! i) else Inl IndexError)"

definition iloc_last :: "'a list \<Rightarrow> py_error + 'a" where
  "iloc_last xs = (if xs = [] then Inl IndexError else Inr (last xs))"

text \<open>\<open>series.iloc[a:b]\<close> for non-negative bounds: clipped to the data, empty when \<open>b \<le> a\<close>.\<close>

definition iloc_slice :: "'a list \<Rightarrow> nat \<Rightarrow> nat \<Rightarrow> 'a list" where
  "iloc_slice xs a b = take (b - a) (drop a xs)"

section \<open>The normalizer: \<open>SignalProcessor.normalize\<close>\<close>

text \<open>
  A float of a raw channel is finite, infinite or \<open>nan\<close> (a missing value). An entry of a
  raw Series is a float or, in a Series of dtype object, a non-numeric value, here its
  text. The argument of \<open>normalize\<close> is \<open>None\<close>, a Series, or a bare number, which has no
  \<open>len()\<close>.
\<close>

datatype fl = Fin real | PosInf | NegInf | NaN

datatype entry = Float fl | Text string

datatype py_arg = PyNone | Scalar fl | Series "entry list"

text \<open>
  \<open>pd.to_numeric(series, errors='coerce')\<close>, applied when the dtype is not numeric. How
  pandas reads a text as a number is the parameter \<open>parse\<close>, which gives \<open>NaN\<close> for a text
  that is no number. On a numeric Series there is no text and nothing changes.
\<close>

fun to_numeric :: "(string \<Rightarrow> fl) \<Rightarrow> entry \<Rightarrow> fl" where
  "to_numeric parse (Float v) = v"
| "to_numeric parse (Text t) = parse t"

text \<open>\<open>series.replace([np.inf, -np.inf], np.nan)\<close>; \<open>None\<close> is \<open>nan\<close> from here on.\<close>

fun replace_inf :: "fl \<Rightarrow> real option" where
  "replace_inf (Fin x) = Some x"
| "replace_inf PosInf = None"
| "replace_inf NegInf = None"
| "replace_inf NaN = None"

text \<open>The values that \<open>series.median()\<close> sees: it skips \<open>nan\<close>.\<close>

fun valid :: "real option list \<Rightarrow> real list" where
  "valid [] = []"
| "valid (None # vs) = valid vs"
| "valid (Some x # vs) = x # valid vs"

text \<open>The median of the sorted values; \<open>None\<close> is the \<open>nan\<close> of an empty selection.\<close>

definition median :: "real list \<Rightarrow> real option" where
  "median xs =
     (if xs = [] then None
      else let s = sort xs; n = length s
           in Some (if odd n then s ! (n div 2)
                    else (s ! (n div 2 - 1) + s ! (n div 2)) / 2))"

definition isna_any :: "real option list \<Rightarrow> bool" where
  "isna_any vs = list_ex (\<lambda>v. v = None) vs"

fun fillna :: "real \<Rightarrow> real option list \<Rightarrow> real list" where
  "fillna m [] = []"
| "fillna m (None # vs) = m # fillna m vs"
| "fillna m (Some x # vs) = x # fillna m vs"

text \<open>
  Lines 36 to 45: coercion, replacement of the infinities, and the fill. Without a
  missing value the \<open>if\<close> is skipped and the fill changes nothing, so its value is
  immaterial there.
\<close>

definition median_val :: "real option list \<Rightarrow> real" where
  "median_val vs = (case median (valid vs) of None \<Rightarrow> 0 | Some m \<Rightarrow> m)"

definition clean :: "(string \<Rightarrow> fl) \<Rightarrow> entry list \<Rightarrow> real list" where
  "clean parse xs =
     (let vs = map (\<lambda>e. replace_inf (to_numeric parse e)) xs
      in if isna_any vs then fillna (median_val vs) vs else fillna 0 vs)"

text \<open>\<open>series.min()\<close> and \<open>series.max()\<close> of a non-empty Series without \<open>nan\<close>.\<close>

definition series_min :: "real list \<Rightarrow> real" where
  "series_min xs = fold min (tl xs) (hd xs)"

definition series_max :: "real list \<Rightarrow> real" where
  "series_max xs = fold max (tl xs) (hd xs)"

text \<open>\<open>np.clip(v, 0.0, 1.0)\<close>.\<close>

definition clip01 :: "real \<Rightarrow> real" where
  "clip01 v = min (max v 0) 1"

text \<open>Lines 47 to 53.\<close>

definition rescale :: "real list \<Rightarrow> real list" where
  "rescale xs =
     (let min_val = series_min xs; max_val = series_max xs
      in if min_val = max_val then replicate (length xs) (1 / 2)
         else map (\<lambda>x. clip01 ((x - min_val) / (max_val - min_val))) xs)"

text \<open>The body of the \<open>try\<close>: \<open>len(series)\<close> raises \<open>TypeError\<close> on a bare number.\<close>

definition normalize_try :: "(string \<Rightarrow> fl) \<Rightarrow> py_arg \<Rightarrow> py_error + real list" where
  "normalize_try parse series =
     (case series of
        PyNone \<Rightarrow> Inr (replicate 100 (1 / 2))
      | Scalar v \<Rightarrow> Inl TypeError
      | Series xs \<Rightarrow>
          if length xs = 0 then Inr (replicate 100 (1 / 2))
          else Inr (rescale (clean parse xs)))"

text \<open>
  \<open>normalize\<close> itself (named \<open>normalize_series\<close> here, since HOL has a constant
  \<open>normalize\<close>): the \<open>except Exception\<close> handler returns the default channel.
\<close>

definition normalize_series :: "(string \<Rightarrow> fl) \<Rightarrow> py_arg \<Rightarrow> py_error + real list" where
  "normalize_series parse series =
     (case normalize_try parse series of
        Inl e \<Rightarrow> Inr (replicate 100 (1 / 2))
      | Inr r \<Rightarrow> Inr r)"

text \<open>A reader of texts that recognises no number: every text is a coercion failure.\<close>

definition no_parse :: "string \<Rightarrow> fl" where
  "no_parse t = NaN"

section \<open>The normalized channel set\<close>

text \<open>
  The dictionary \<open>signals\<close> that both analyses read: the time axis in seconds and the
  normalized channels they use. Normalized channels hold no \<open>nan\<close>.
\<close>

record signals =
  time :: "real list"
  flow_n :: "real list"
  body_pos_n :: "real list"
  activity_n :: "real list"
  spo2_n :: "real list"
  snore_n :: "real list"
  pulse_n :: "real list"

datatype event_type = Apnea | Hypopnea

text \<open>The threshold masks of \<open>analyze_full_study\<close>, per sample.\<close>

definition is_apnea :: "real \<Rightarrow> bool" where
  "is_apnea f = (f < 1 / 10)"

definition is_hypopnea :: "real \<Rightarrow> bool" where
  "is_hypopnea f = (f \<ge> 1 / 10 \<and> f < 3 / 10)"

definition is_flow_limitation :: "real \<Rightarrow> bool" where
  "is_flow_limitation f = (f \<ge> 3 / 10 \<and> f < 1 / 2)"

definition rem_periods :: "real \<Rightarrow> bool" where
  "rem_periods a = (a < 2 / 10)"

section \<open>Whole-study mode: \<open>SleepAnalysis.analyze_full_study\<close>\<close>

text \<open>
  The local variables of the scanning loop. \<open>episode\<close> holds \<open>in_event\<close>,
  \<open>event_start_index\<close> and \<open>event_type\<close>: \<open>None\<close> is \<open>in_event = False\<close> (the other two
  are then unbound or stale and never read), \<open>Some (start, ty)\<close> is an open episode.
  \<open>position_counts\<close> is the insertion-ordered dictionary of the source, and the four
  \<open>pe_\<close> fields are the nested dictionary \<open>position_events\<close>.
\<close>

record scan_state =
  apneas :: nat
  hypopneas :: nat
  flow_limitations :: nat
  apnea_durations :: "real list"
  hypopnea_durations :: "real list"
  max_apnea_duration :: real
  max_hypopnea_duration :: real
  episode :: "(nat \<times> event_type) option"
  position_counts :: "(int \<times> nat) list"
  pe_supine_apneas :: nat
  pe_supine_hypopneas :: nat
  pe_non_supine_apneas :: nat
  pe_non_supine_hypopneas :: nat
  rem_apneas :: nat
  rem_hypopneas :: nat
  nrem_apneas :: nat
  nrem_hypopneas :: nat

definition init_state :: scan_state where
  "init_state = \<lparr>apneas = 0, hypopneas = 0, flow_limitations = 0,
     apnea_durations = [], hypopnea_durations = [],
     max_apnea_duration = 0, max_hypopnea_duration = 0,
     episode = None, position_counts = [],
     pe_supine_apneas = 0, pe_supine_hypopneas = 0,
     pe_non_supine_apneas = 0, pe_non_supine_hypopneas = 0,
     rem_apneas = 0, rem_hypopneas = 0, nrem_apneas = 0, nrem_hypopneas = 0\<rparr>"

text \<open>\<open>if pos not in position_counts: position_counts[pos] = 0\<close>, then \<open>position_counts[pos] += 1\<close>.\<close>

fun incr_count :: "int \<Rightarrow> (int \<times> nat) list \<Rightarrow> (int \<times> nat) list" where
  "incr_count k [] = [(k, 1)]"
| "incr_count k ((k', c) # d) =
     (if k = k' then (k', c + 1) # d else (k', c) # incr_count k d)"

text \<open>\<open>position_counts.get(k, 0)\<close>.\<close>

definition get_count :: "(int \<times> nat) list \<Rightarrow> int \<Rightarrow> nat" where
  "get_count d k = (case map_of d k of None \<Rightarrow> 0 | Some c \<Rightarrow> c)"

definition min_samples :: "real \<Rightarrow> int" where
  "min_samples sample_rate = py_int (10 * sample_rate)"

text \<open>The bookkeeping of an episode that passed the gate (lines 73 to 104).\<close>

definition count_event :: "event_type \<Rightarrow> real \<Rightarrow> int \<Rightarrow> bool \<Rightarrow> scan_state \<Rightarrow> scan_state" where
  "count_event ty event_duration pos rem s =
     (case ty of
        Apnea \<Rightarrow>
          s\<lparr>apneas := apneas s + 1,
            apnea_durations := apnea_durations s @ [event_duration],
            max_apnea_duration := max (max_apnea_duration s) event_duration,
            pe_supine_apneas := (if pos = 0 then pe_supine_apneas s + 1 else pe_supine_apneas s),
            pe_non_supine_apneas :=
              (if pos = 0 then pe_non_supine_apneas s else pe_non_supine_apneas s + 1),
            rem_apneas := (if rem then rem_apneas s + 1 else rem_apneas s),
            nrem_apneas := (if rem then nrem_apneas s else nrem_apneas s + 1)\<rparr>
      | Hypopnea \<Rightarrow>
          s\<lparr>hypopneas := hypopneas s + 1,
            hypopnea_durations := hypopnea_durations s @ [event_duration],
            max_hypopnea_duration := max (max_hypopnea_duration s) event_duration,
            pe_supine_hypopneas :=
              (if pos = 0 then pe_supine_hypopneas s + 1 else pe_supine_hypopneas s),
            pe_non_supine_hypopneas :=
              (if pos = 0 then pe_non_supine_hypopneas s else pe_non_supine_hypopneas s + 1),
            rem_hypopneas := (if rem then rem_hypopneas s + 1 else rem_hypopneas s),
            nrem_hypopneas := (if rem then nrem_hypopneas s else nrem_hypopneas s + 1)\<rparr>)"

text \<open>
  The \<open>if\<close>/\<open>elif\<close> of the loop body (lines 64 to 104) at index \<open>i\<close> with flow value \<open>f\<close>.
  The division by \<open>sample_rate\<close> raises for a rate of zero, and \<open>rem_periods.iloc[i]\<close>
  raises when the activity channel is shorter than the flow channel.
\<close>

definition event_detection ::
  "real \<Rightarrow> real list \<Rightarrow> nat \<Rightarrow> real \<Rightarrow> int \<Rightarrow> scan_state \<Rightarrow> py_error + scan_state" where
  "event_detection sample_rate activity i f pos s =
     (case episode s of
        None \<Rightarrow>
          if is_apnea f \<or> is_hypopnea f
          then Inr (s\<lparr>episode := Some (i, if is_apnea f then Apnea else Hypopnea)\<rparr>)
          else Inr s
      | Some (event_start_index, ty) \<Rightarrow>
          if \<not> (is_apnea f \<or> is_hypopnea f) then
            if sample_rate = 0 then Inl ZeroDivisionError
            else
              let event_duration = real (i - event_start_index) / sample_rate;
                  s' = s\<lparr>episode := None\<rparr>
              in if int (i - event_start_index) \<ge> min_samples sample_rate
                 then (case iloc activity i of
                         Inl e \<Rightarrow> Inl e
                       | Inr a \<Rightarrow> Inr (count_event ty event_duration pos (rem_periods a) s'))
                 else Inr s'
          else Inr s)"

text \<open>One iteration of \<open>for i in range(len(flow))\<close>.\<close>

definition scan_step :: "real \<Rightarrow> signals \<Rightarrow> nat \<Rightarrow> scan_state \<Rightarrow> py_error + scan_state" where
  "scan_step sample_rate sg i s =
     (let f = flow_n sg ! i;
          pos = (if i < length (body_pos_n sg) then py_int (body_pos_n sg ! i) else 0);
          s1 = s\<lparr>position_counts := incr_count pos (position_counts s)\<rparr>
      in case event_detection sample_rate (activity_n sg) i f pos s1 of
           Inl e \<Rightarrow> Inl e
         | Inr s2 \<Rightarrow>
             Inr (if is_flow_limitation f
                  then s2\<lparr>flow_limitations := flow_limitations s2 + 1\<rparr> else s2))"

fun scan_loop :: "real \<Rightarrow> signals \<Rightarrow> nat list \<Rightarrow> scan_state \<Rightarrow> py_error + scan_state" where
  "scan_loop sample_rate sg [] s = Inr s"
| "scan_loop sample_rate sg (i # is) s =
     (case scan_step sample_rate sg i s of
        Inl e \<Rightarrow> Inl e
      | Inr s' \<Rightarrow> scan_loop sample_rate sg is s')"

text \<open>
  The result mapping, one field per key of \<open>results\<close>. The keys that numpy computes
  as floats are \<open>real option\<close>: numpy does not raise on a division by zero or on a
  reduction of an empty Series, it warns and gives \<open>nan\<close> or \<open>inf\<close>, which is \<open>None\<close> here.
\<close>

record results =
  tib_hours :: real
  patient_id :: string
  recording_date :: string
  ahi :: real
  rdi :: real
  obstructive_apneas :: int
  central_apneas :: int
  res_hypopneas :: nat
  total_apneas :: nat
  res_flow_limitations :: nat
  res_max_apnea_duration :: real
  res_max_hypopnea_duration :: real
  avg_apnea_duration :: real
  avg_hypopnea_duration :: real
  supine_percent :: real
  left_percent :: real
  right_percent :: real
  prone_percent :: real
  other_positions :: "(int \<times> real) list"
  supine_apneas :: nat
  supine_hypopneas :: nat
  non_supine_apneas :: nat
  non_supine_hypopneas :: nat
  res_rem_apneas :: nat
  res_rem_hypopneas :: nat
  res_nrem_apneas :: nat
  res_nrem_hypopneas :: nat
  rem_percent :: "real option"
  nrem_percent :: "real option"
  rem_ahi :: "real option"
  nrem_ahi :: "real option"
  artifact_percent :: "real option"
  min_spo2 :: "real option"
  avg_spo2 :: "real option"
  baseline_spo2 :: "real option"
  desat_count :: nat
  desat_index :: real
  time_below_90 :: "real option"
  snore_index :: real
  min_hr :: "real option"
  max_hr :: "real option"
  avg_hr :: "real option"

text \<open>\<open>np.mean(xs) if xs else 0\<close>.\<close>

definition mean_or_zero :: "real list \<Rightarrow> real" where
  "mean_or_zero xs = (if xs = [] then 0 else sum_list xs / real (length xs))"

text \<open>\<open>(count / total_samples) * 100 if total_samples > 0 else 0\<close>.\<close>

definition percent_of :: "nat \<Rightarrow> nat \<Rightarrow> real" where
  "percent_of c total_samples =
     (if total_samples > 0 then (real c / real total_samples) * 100 else 0)"

text \<open>The second loop, over \<open>position_counts.items()\<close>, keeping the codes above 3.\<close>

fun other_positions_of :: "(int \<times> nat) list \<Rightarrow> nat \<Rightarrow> (int \<times> real) list" where
  "other_positions_of [] total_samples = []"
| "other_positions_of ((pos, c) # d) total_samples =
     (if pos > 3 then (pos, percent_of c total_samples) # other_positions_of d total_samples
      else other_positions_of d total_samples)"

text \<open>\<open>series.diff()\<close> without its leading \<open>nan\<close>, which no comparison counts.\<close>

fun diff :: "real list \<Rightarrow> real list" where
  "diff (x # y # xs) = (y - x) # diff (y # xs)"
| "diff xs = []"

text \<open>\<open>(mask).sum()\<close> of a boolean Series.\<close>

definition count_where :: "('a \<Rightarrow> bool) \<Rightarrow> 'a list \<Rightarrow> nat" where
  "count_where P xs = length (filter P xs)"

text \<open>\<open>(count / n) * 100\<close> in numpy floats: \<open>nan\<close> for an empty Series.\<close>

definition ratio_percent :: "nat \<Rightarrow> nat \<Rightarrow> real option" where
  "ratio_percent c n = (if n = 0 then None else Some (real c / real n * 100))"

text \<open>
  \<open>events / (tib_hours * percent / 100) if percent > 0 else 0\<close>. The comparison is false
  for \<open>nan\<close>; the division is a numpy division, \<open>nan\<close> or \<open>inf\<close> for a zero denominator.
\<close>

definition stage_ahi :: "nat \<Rightarrow> real \<Rightarrow> real option \<Rightarrow> real option" where
  "stage_ahi events tib percent =
     (case percent of
        None \<Rightarrow> Some 0
      | Some p \<Rightarrow>
          if p > 0
          then (if tib * p / 100 = 0 then None else Some (real events / (tib * p / 100)))
          else Some 0)"

text \<open>\<open>series.min()\<close>, \<open>series.max()\<close> and \<open>series.mean()\<close>: \<open>nan\<close> for an empty Series.\<close>

definition min_of :: "real list \<Rightarrow> real option" where
  "min_of xs = (if xs = [] then None else Some (series_min xs))"

definition max_of :: "real list \<Rightarrow> real option" where
  "max_of xs = (if xs = [] then None else Some (series_max xs))"

definition mean_of :: "real list \<Rightarrow> real option" where
  "mean_of xs = (if xs = [] then None else Some (sum_list xs / real (length xs)))"

definition analyze_full_study :: "real \<Rightarrow> signals \<Rightarrow> py_error + results" where
  "analyze_full_study sample_rate sg =
     (case iloc_last (time sg) of
        Inl e \<Rightarrow> Inl e
      | Inr t_last \<Rightarrow>
     (case iloc (time sg) 0 of
        Inl e \<Rightarrow> Inl e
      | Inr t_first \<Rightarrow>
     (case scan_loop sample_rate sg [0..<length (flow_n sg)] init_state of
        Inl e \<Rightarrow> Inl e
      | Inr s \<Rightarrow>
          let tib = (t_last - t_first) / 3600;
              total_samples = length (body_pos_n sg);
              total_events = apneas s + hypopneas s;
              obstructive = py_int (real (apneas s) * (3 / 4));
              rem_pct = ratio_percent (count_where rem_periods (activity_n sg))
                          (length (activity_n sg));
              nrem_pct = map_option (\<lambda>p. 100 - p) rem_pct;
              artifacts = count_where (\<lambda>f. f > 95 / 100) (flow_n sg)
                          + count_where (\<lambda>f. f < 5 / 100) (flow_n sg);
              spo2_original = map (\<lambda>x. 85 + x * 15) (spo2_n sg);
              desaturations = count_where (\<lambda>d. d < - 3) (diff spo2_original);
              snore_events = count_where (\<lambda>x. x > 7 / 10) (snore_n sg);
              pulse_original = map (\<lambda>x. 50 + x * 70) (pulse_n sg)
          in Inr \<lparr>tib_hours = tib,
                  patient_id = ''11'',
                  recording_date = ''25-08-2025'',
                  ahi = (if tib > 0 then real total_events / tib else 0),
                  rdi = (if tib > 0 then real (total_events + flow_limitations s) / tib else 0),
                  obstructive_apneas = obstructive,
                  central_apneas = int (apneas s) - obstructive,
                  res_hypopneas = hypopneas s,
                  total_apneas = apneas s,
                  res_flow_limitations = flow_limitations s,
                  res_max_apnea_duration = max_apnea_duration s,
                  res_max_hypopnea_duration = max_hypopnea_duration s,
                  avg_apnea_duration = mean_or_zero (apnea_durations s),
                  avg_hypopnea_duration = mean_or_zero (hypopnea_durations s),
                  supine_percent = percent_of (get_count (position_counts s) 0) total_samples,
                  left_percent = percent_of (get_count (position_counts s) 1) total_samples,
                  right_percent = percent_of (get_count (position_counts s) 2) total_samples,
                  prone_percent = percent_of (get_count (position_counts s) 3) total_samples,
                  other_positions = other_positions_of (position_counts s) total_samples,
                  supine_apneas = pe_supine_apneas s,
                  supine_hypopneas = pe_supine_hypopneas s,
                  non_supine_apneas = pe_non_supine_apneas s,
                  non_supine_hypopneas = pe_non_supine_hypopneas s,
                  res_rem_apneas = rem_apneas s,
                  res_rem_hypopneas = rem_hypopneas s,
                  res_nrem_apneas = nrem_apneas s,
                  res_nrem_hypopneas = nrem_hypopneas s,
                  rem_percent = rem_pct,
                  nrem_percent = nrem_pct,
                  rem_ahi = stage_ahi (rem_apneas s + rem_hypopneas s) tib rem_pct,
                  nrem_ahi = stage_ahi (nrem_apneas s + nrem_hypopneas s) tib nrem_pct,
                  artifact_percent = ratio_percent artifacts (length (flow_n sg)),
                  min_spo2 = min_of spo2_original,
                  avg_spo2 = mean_of spo2_original,
                  baseline_spo2 = median spo2_original,
                  desat_count = desaturations,
                  desat_index = (if tib > 0 then real desaturations / tib else 0),
                  time_below_90 = ratio_percent (count_where (\<lambda>x. x < 90) spo2_original)
                                    (length spo2_original),
                  snore_index = (if tib > 0 then real snore_events / tib else 0),
                  min_hr = min_of pulse_original,
                  max_hr = max_of pulse_original,
                  avg_hr = mean_of pulse_original\<rparr>)))"

section \<open>Windowed mode: \<open>OSAAnalysis.detect_respiratory_events\<close>\<close>

record respiratory_event =
  ev_type :: event_type
  start_time :: real
  end_time :: real
  duration :: real

text \<open>
  \<open>Series.searchsorted(v, side)\<close> is numpy's binary search. On the sorted time axis
  it returns the number of entries below \<open>v\<close> (\<open>side='left'\<close>) or not above \<open>v\<close>
  (\<open>side='right'\<close>); that contract is the model.
\<close>

datatype side = Left | Right

definition searchsorted :: "real list \<Rightarrow> real \<Rightarrow> side \<Rightarrow> nat" where
  "searchsorted ts v sd =
     (case sd of
        Left \<Rightarrow> length (filter (\<lambda>t. t < v) ts)
      | Right \<Rightarrow> length (filter (\<lambda>t. t \<le> v) ts))"

text \<open>
  The state of the loop is \<open>(in_event, event_start, event_type)\<close>, set and cleared
  together in the source: \<open>None\<close> is \<open>(False, None, None)\<close>. The second component is
  \<open>self.detected_events\<close>, cleared at the start of every call.
\<close>

type_synonym detect_state = "(real \<times> event_type) option \<times> respiratory_event list"

fun detect_step :: "real \<times> real \<Rightarrow> detect_state \<Rightarrow> detect_state" where
  "detect_step (time_val, flow_val) (None, evs) =
     (if flow_val < 1 / 10 then (Some (time_val, Apnea), evs)
      else if flow_val < 3 / 10 then (Some (time_val, Hypopnea), evs)
      else (None, evs))"
| "detect_step (time_val, flow_val) (Some (event_start, ty), evs) =
     (if flow_val > 3 / 10 then
        (let event_duration = time_val - event_start
         in (None,
             if event_duration \<ge> 10
             then evs @ [\<lparr>ev_type = ty, start_time = event_start,
                          end_time = time_val, duration = event_duration\<rparr>]
             else evs))
      else (Some (event_start, ty), evs))"

definition window_data :: "signals \<Rightarrow> real \<Rightarrow> real \<Rightarrow> (real \<times> real) list" where
  "window_data sg start_t end_t =
     (let start_idx = searchsorted (time sg) start_t Left;
          end_idx = searchsorted (time sg) end_t Right;
          flow_data = iloc_slice (flow_n sg) start_idx end_idx;
          time_data = iloc_slice (time sg) start_idx end_idx
      in zip time_data flow_data)"

definition detect_respiratory_events :: "signals \<Rightarrow> real \<Rightarrow> real \<Rightarrow> respiratory_event list" where
  "detect_respiratory_events sg start_t end_t =
     snd (fold detect_step (window_data sg start_t end_t) (None, []))"

text \<open>
  The same step with the subtraction of the source made explicit. The time values are
  doubles, and \<open>time_val - event_start\<close> is their IEEE difference, which rounds the exact
  difference; \<open>sub\<close> stands for that subtraction. \<open>detect_step\<close> is this step with the exact
  difference.
\<close>

fun detect_step_rounded ::
  "(real \<Rightarrow> real \<Rightarrow> real) \<Rightarrow> real \<times> real \<Rightarrow> detect_state \<Rightarrow> detect_state" where
  "detect_step_rounded sub (time_val, flow_val) (None, evs) =
     (if flow_val < 1 / 10 then (Some (time_val, Apnea), evs)
      else if flow_val < 3 / 10 then (Some (time_val, Hypopnea), evs)
      else (None, evs))"
| "detect_step_rounded sub (time_val, flow_val) (Some (event_start, ty), evs) =
     (if flow_val > 3 / 10 then
        (let event_duration = sub time_val event_start
         in (None,
             if event_duration \<ge> 10
             then evs @ [\<lparr>ev_type = ty, start_time = event_start,
                          end_time = time_val, duration = event_duration\<rparr>]
             else evs))
      else (Some (event_start, ty), evs))"

definition detect_respiratory_events_rounded ::
  "(real \<Rightarrow> real \<Rightarrow> real) \<Rightarrow> signals \<Rightarrow> real \<Rightarrow> real \<Rightarrow> respiratory_event list" where
  "detect_respiratory_events_rounded sub sg start_t end_t =
     snd (fold (detect_step_rounded sub) (window_data sg start_t end_t) (None, []))"

section \<open>From raw channels to the report\<close>

text \<open>
  The raw channels that the analysis depends on, as the loader extracts them: the time
  axis in seconds and one raw Series per channel, each field named after its key with
  the prefix \<open>raw_\<close>. The channels that the analysis never reads (thorax, abdomen,
  pleth, the EEG channels) are left out.
\<close>

record raw_signals =
  raw_time :: "real list"
  raw_flow :: "entry list"
  raw_body_pos :: "entry list"
  raw_activity :: "entry list"
  raw_spo2 :: "entry list"
  raw_snore :: "entry list"
  raw_pulse :: "entry list"

text \<open>\<open>SignalProcessor.create_normalized_fallback_signals\<close>: every channel is a zero Series.\<close>

definition create_normalized_fallback_signals :: "raw_signals \<Rightarrow> signals" where
  "create_normalized_fallback_signals raw =
     (let zero_series = replicate (length (raw_time raw)) 0
      in \<lparr>time = raw_time raw, flow_n = zero_series, body_pos_n = zero_series,
          activity_n = zero_series, spo2_n = zero_series, snore_n = zero_series,
          pulse_n = zero_series\<rparr>)"

text \<open>
  \<open>SignalProcessor.normalize_all_signals\<close>: every channel but the time axis is stored
  normalized under its key with the suffix \<open>_n\<close>; an exception leads to the fallback. The
  smoothed \<open>flow_plot\<close> is for display and is not read by the analysis.
\<close>

definition normalize_all_signals :: "(string \<Rightarrow> fl) \<Rightarrow> raw_signals \<Rightarrow> signals" where
  "normalize_all_signals parse raw =
     (case normalize_series parse (Series (raw_flow raw)) of
        Inl e \<Rightarrow> create_normalized_fallback_signals raw
      | Inr f \<Rightarrow>
     (case normalize_series parse (Series (raw_body_pos raw)) of
        Inl e \<Rightarrow> create_normalized_fallback_signals raw
      | Inr b \<Rightarrow>
     (case normalize_series parse (Series (raw_activity raw)) of
        Inl e \<Rightarrow> create_normalized_fallback_signals raw
      | Inr a \<Rightarrow>
     (case normalize_series parse (Series (raw_spo2 raw)) of
        Inl e \<Rightarrow> create_normalized_fallback_signals raw
      | Inr ox \<Rightarrow>
     (case normalize_series parse (Series (raw_snore raw)) of
        Inl e \<Rightarrow> create_normalized_fallback_signals raw
      | Inr sn \<Rightarrow>
     (case normalize_series parse (Series (raw_pulse raw)) of
        Inl e \<Rightarrow> create_normalized_fallback_signals raw
      | Inr pu \<Rightarrow>
          \<lparr>time = raw_time raw, flow_n = f, body_pos_n = b, activity_n = a,
           spo2_n = ox, snore_n = sn, pulse_n = pu\<rparr>))))))"

section \<open>Concrete studies\<close>

text \<open>
  A study sampled every 5 seconds (0.2 Hz): two apnea episodes of two samples each.
\<close>

definition study_two_apneas :: signals where
  "study_two_apneas =
     \<lparr>time = [0, 5, 10, 15, 20, 25],
      flow_n = [1 / 20, 1 / 20, 1, 1 / 20, 1 / 20, 1],
      body_pos_n = [0, 0, 1, 1, 4, 4],
      activity_n = [1 / 2, 1 / 2, 1 / 2, 1 / 2, 1 / 10, 1 / 10],
      spo2_n = [1, 1, 1, 1, 1, 1],
      snore_n = [0, 0, 0, 0, 0, 0],
      pulse_n = [0, 0, 0, 0, 0, 0]\<rparr>"


text \<open>
  A study sampled every 0.8 seconds (1.25 Hz): twelve apnea-band samples, then recovery.
  The episode lasts 12 samples, that is 9.6 seconds.
\<close>

definition study_short_episode :: signals where
  "study_short_episode =
     \<lparr>time = map (\<lambda>i. real i * (4 / 5)) [0..<14],
      flow_n = replicate 12 (1 / 20) @ [1, 1],
      body_pos_n = replicate 14 0,
      activity_n = replicate 14 (1 / 2),
      spo2_n = replicate 14 1,
      snore_n = replicate 14 0,
      pulse_n = replicate 14 0\<rparr>"

text \<open>
  Three samples: an apnea-band sample at 0 s, a sample of exactly 0.3 at 11 s, and a
  recovered sample at 12 s.
\<close>

definition study_threshold :: signals where
  "study_threshold =
     \<lparr>time = [0, 11, 12],
      flow_n = [1 / 20, 3 / 10, 1],
      body_pos_n = [0, 0, 0],
      activity_n = [1 / 2, 1 / 2, 1 / 2],
      spo2_n = [1, 1, 1],
      snore_n = [0, 0, 0],
      pulse_n = [0, 0, 0]\<rparr>"

text \<open>The empty study: every channel and the time axis have no sample.\<close>

definition study_empty :: signals where
  "study_empty =
     \<lparr>time = [], flow_n = [], body_pos_n = [], activity_n = [], spo2_n = [], snore_n = [],
      pulse_n = []\<rparr>"

text \<open>
  The window as the specification words it, for comparison with \<open>window_data\<close>: the
  samples of the half-open interval \<open>start_time \<le> t < end_time\<close>.
\<close>

definition spec_window_data :: "signals \<Rightarrow> real \<Rightarrow> real \<Rightarrow> (real \<times> real) list" where
  "spec_window_data sg start_t end_t =
     filter (\<lambda>(t, f). start_t \<le> t \<and> t < end_t) (zip (time sg) (flow_n sg))"

text \<open>Three samples one second apart.\<close>

definition study_unit_axis :: signals where
  "study_unit_axis =
     \<lparr>time = [0, 1, 2],
      flow_n = [1 / 2, 1 / 2, 1 / 2],
      body_pos_n = [0, 0, 0],
      activity_n = [1 / 2, 1 / 2, 1 / 2],
      spo2_n = [1, 1, 1],
      snore_n = [0, 0, 0],
      pulse_n = [0, 0, 0]\<rparr>"

section \<open>Concrete raw channels\<close>




section \<open>Comparing the two modes\<close>

text \<open>The durations of the windowed events of one type, in the order of emission.\<close>

definition durations_of :: "event_type \<Rightarrow> respiratory_event list \<Rightarrow> real list" where
  "durations_of ty evs = map duration (filter (\<lambda>e. ev_type e = ty) evs)"

text \<open>A sample in the apnea band or the hypopnea band.\<close>

definition in_band :: "real \<Rightarrow> bool" where
  "in_band f = (is_apnea f \<or> is_hypopnea f)"

text \<open>Two lists of durations that agree element by element up to a tolerance.\<close>

definition close_lists :: "real \<Rightarrow> real list \<Rightarrow> real list \<Rightarrow> bool" where
  "close_lists tol xs ys = list_all2 (\<lambda>x y. \<bar>x - y\<bar> \<le> tol) xs ys"

text \<open>
  The relation between the state of the whole-study scan and the state of the windowed
  scan over the same samples: the same open episode (by index and by time), durations
  per type that agree up to the tolerance, and whole-study counters and maxima that
  agree with the whole-study durations.
\<close>

definition modes_related :: "real \<Rightarrow> real list \<Rightarrow> scan_state \<Rightarrow> detect_state \<Rightarrow> bool" where
  "modes_related tol ts st ds =
     (fst ds = map_option (\<lambda>(j, ty). (ts ! j, ty)) (episode st)
      \<and> close_lists tol (apnea_durations st) (durations_of Apnea (snd ds))
      \<and> close_lists tol (hypopnea_durations st) (durations_of Hypopnea (snd ds))
      \<and> apneas st = length (apnea_durations st)
      \<and> hypopneas st = length (hypopnea_durations st)
      \<and> max_apnea_duration st = fold max (apnea_durations st) 0
      \<and> max_hypopnea_duration st = fold max (hypopnea_durations st) 0)"

text \<open>
  What the scan knows about its episode before it reads sample \<open>i\<close>: an open episode
  began at an earlier sample \<open>j\<close> that follows a recovered sample (or is the first
  sample), and all samples from \<open>j\<close> on are in a band; without an open episode the
  previous sample is recovered.
\<close>

definition episode_inv :: "signals \<Rightarrow> nat \<Rightarrow> scan_state \<Rightarrow> bool" where
  "episode_inv sg i st =
     (case episode st of
        None \<Rightarrow> i = 0 \<or> \<not> in_band (flow_n sg ! (i - 1))
      | Some (j, ty) \<Rightarrow>
          j < i \<and> (j = 0 \<or> \<not> in_band (flow_n sg ! (j - 1)))
          \<and> list_all (\<lambda>l. in_band (flow_n sg ! l)) [j..<i])"

text \<open>
  An episode of exactly \<open>int(10 * sample_rate)\<close> samples that begins at sample \<open>j\<close>: it
  follows a recovered sample (or is the first sample), its samples are in a band, and
  the next sample is recovered. At a rate with \<open>10 * sample_rate\<close> whole such an episode
  lasts exactly 10 seconds, and the rounding of doubles decides whether windowed mode
  emits it.
\<close>

definition ten_second_episode :: "real \<Rightarrow> signals \<Rightarrow> nat \<Rightarrow> bool" where
  "ten_second_episode sample_rate sg j =
     (let m = nat (min_samples sample_rate)
      in j + m < length (flow_n sg)
         \<and> (j = 0 \<or> \<not> in_band (flow_n sg ! (j - 1)))
         \<and> list_all (\<lambda>l. in_band (flow_n sg ! l)) [j..<j + m]
         \<and> \<not> in_band (flow_n sg ! (j + m)))"

definition no_ten_second_episode :: "real \<Rightarrow> signals \<Rightarrow> bool" where
  "no_ten_second_episode sample_rate sg =
     list_all (\<lambda>j. \<not> ten_second_episode sample_rate sg j) [0..<length (flow_n sg)]"

text \<open>
  A window contains every episode when every sample outside the window, and every sample
  whose successor lies after the window, is recovered: no episode starts outside the
  window, and none is ended by a sample after it.
\<close>

definition episodes_inside :: "signals \<Rightarrow> real \<Rightarrow> real \<Rightarrow> bool" where
  "episodes_inside sg start_t end_t =
     list_all
       (\<lambda>i. (time sg ! i < start_t \<or> end_t < time sg ! i
              \<or> (Suc i < length (time sg) \<and> end_t < time sg ! Suc i))
            \<longrightarrow> flow_n sg ! i \<ge> 3 / 10)
       [0..<length (time sg)]"

text \<open>
  The 600-sample test signal at 10 Hz: flow 1.0 except samples 100 to 219, which are 0.05.
\<close>

definition study_dip :: signals where
  "study_dip =
     \<lparr>time = map (\<lambda>i. real i / 10) [0..<600],
      flow_n = replicate 100 1 @ replicate 120 (1 / 20) @ replicate 380 1,
      body_pos_n = replicate 600 0,
      activity_n = replicate 600 (1 / 2),
      spo2_n = replicate 600 1,
      snore_n = replicate 600 0,
      pulse_n = replicate 600 0\<rparr>"

text \<open>
  \<open>SignalProcessor.compute_sampling_rate\<close>: the reciprocal of the median time step, and
  10 Hz for fewer than three samples or a non-positive step. The median of the steps of
  three or more samples is defined; the \<open>None\<close> branch is never taken.
\<close>

definition compute_sampling_rate :: "real list \<Rightarrow> real" where
  "compute_sampling_rate t =
     (if length t < 3 then 10
      else case median (diff t) of
             None \<Rightarrow> 10
           | Some dt \<Rightarrow> if dt \<le> 0 then 10 else 1 / dt)"

text \<open>
  A recording at 10 Hz with a gap of 11 seconds after the third sample; the flow drops
  at the third sample and has recovered at the fourth.
\<close>

definition study_gap :: signals where
  "study_gap =
     \<lparr>time = [0, 1 / 10, 2 / 10, 112 / 10],
      flow_n = [1, 1, 1 / 20, 1],
      body_pos_n = [0, 0, 0, 0],
      activity_n = [1 / 2, 1 / 2, 1 / 2, 1 / 2],
      spo2_n = [1, 1, 1, 1],
      snore_n = [0, 0, 0, 0],
      pulse_n = [0, 0, 0, 0]\<rparr>"

text \<open>
  A raw recording of five samples at 10 Hz whose body-position codes are 0, 1, 2, 3
  and 4, one sample each; the other channels are constant.
\<close>

definition raw_position_codes :: raw_signals where
  "raw_position_codes =
     \<lparr>raw_time = [0, 1 / 10, 2 / 10, 3 / 10, 4 / 10],
      raw_flow = replicate 5 (Float (Fin 1)),
      raw_body_pos = [Float (Fin 0), Float (Fin 1), Float (Fin 2), Float (Fin 3), Float (Fin 4)],
      raw_activity = replicate 5 (Float (Fin 1)),
      raw_spo2 = replicate 5 (Float (Fin 97)),
      raw_snore = replicate 5 (Float (Fin 0)),
      raw_pulse = replicate 5 (Float (Fin 70))\<rparr>"


text \<open>
  A study at 2.5 Hz with one episode of exactly 25 samples: the flow is in the apnea band
  from sample 16 (6.4 s) to sample 40 and has recovered at sample 41 (16.4 s).
\<close>

definition study_ten_seconds :: signals where
  "study_ten_seconds =
     \<lparr>time = map (\<lambda>i. real i * (2 / 5)) [0..<43],
      flow_n = replicate 16 1 @ replicate 25 (1 / 20) @ replicate 2 1,
      body_pos_n = replicate 43 0,
      activity_n = replicate 43 (1 / 2),
      spo2_n = replicate 43 1,
      snore_n = replicate 43 0,
      pulse_n = replicate 43 0\<rparr>"

text \<open>A subtraction that returns \<open>2 ^ 50\<close>-th less than the exact difference.\<close>

definition sub_below :: "real \<Rightarrow> real \<Rightarrow> real" where
  "sub_below a b = a - b - 1 / 2 ^ 50"

section \<open>Whole-study mode returns\<close>

lemma scan_step_returns:
  assumes "sample_rate \<noteq> 0" and "i < length (activity_n sg)"
  shows "\<exists>s'. scan_step sample_rate sg i s = Inr s'"
  using assms
  by (simp add: scan_step_def event_detection_def iloc_def Let_def split: option.splits prod.splits)

lemma scan_loop_returns:
  assumes "sample_rate \<noteq> 0" and "list_all (\<lambda>i. i < length (activity_n sg)) is"
  shows "\<exists>s'. scan_loop sample_rate sg is s = Inr s'"
  using assms(2)
proof (induction "is" arbitrary: s)
  case Nil
  then show ?case by simp
next
  case (Cons i "is")
  then have "i < length (activity_n sg)" by simp
  from scan_step_returns [OF assms(1) this]
  obtain s1 where "scan_step sample_rate sg i s = Inr s1" by blast
  moreover from Cons have "\<exists>s'. scan_loop sample_rate sg is s1 = Inr s'" by simp
  ultimately show ?case by simp
qed

lemma scan_returns:
  assumes "sample_rate \<noteq> 0" and "length (flow_n sg) \<le> length (activity_n sg)"
  shows "\<exists>s'. scan_loop sample_rate sg [0..<length (flow_n sg)] init_state = Inr s'"
proof -
  have "list_all (\<lambda>i. i < length (activity_n sg)) [0..<length (flow_n sg)]"
    using assms(2) by (simp add: list_all_iff)
  then show ?thesis by (rule scan_loop_returns [OF assms(1)])
qed

lemma analyze_returns:
  assumes "time sg \<noteq> []" and "sample_rate \<noteq> 0"
    and "length (flow_n sg) \<le> length (activity_n sg)"
  shows "\<exists>r. analyze_full_study sample_rate sg = Inr r"
proof -
  from scan_returns [OF assms(2,3)]
  obtain s where "scan_loop sample_rate sg [0..<length (flow_n sg)] init_state = Inr s" by blast
  then show ?thesis
    using assms(1) by (simp add: analyze_full_study_def iloc_last_def iloc_def Let_def)
qed

lemma analyze_InrD:
  assumes "analyze_full_study sample_rate sg = Inr r"
  shows "time sg \<noteq> [] \<and> (\<exists>s. scan_loop sample_rate sg [0..<length (flow_n sg)] init_state = Inr s
     \<and> total_apneas r = apneas s
     \<and> obstructive_apneas r = py_int (real (apneas s) * (3 / 4))
     \<and> central_apneas r = int (apneas s) - py_int (real (apneas s) * (3 / 4)))"
  using assms
  by (auto simp: analyze_full_study_def iloc_last_def iloc_def Let_def split: if_splits sum.splits)

section \<open>The obstructive and central split\<close>

text \<open>
  Claim C10. Whenever the whole-study analysis returns a result mapping, its
  \<open>obstructive_apneas\<close> is the floor of 0.75 times \<open>total_apneas\<close>, its \<open>central_apneas\<close> is
  the rest, and the two add up to \<open>total_apneas\<close>: the split depends on the signals only
  through the number of apneas.
\<close>

theorem obstructive_central_split:
  assumes "analyze_full_study sample_rate sg = Inr r"
  shows "obstructive_apneas r = \<lfloor>(3 / 4) * real (total_apneas r)\<rfloor>
    \<and> central_apneas r = int (total_apneas r) - obstructive_apneas r
    \<and> obstructive_apneas r + central_apneas r = int (total_apneas r)"
proof -
  from analyze_InrD [OF assms] obtain s :: scan_state where
    a: "total_apneas r = apneas s" and
    b: "obstructive_apneas r = py_int (real (apneas s) * (3 / 4))" and
    c: "central_apneas r = int (apneas s) - py_int (real (apneas s) * (3 / 4))"
    by blast
  have "py_int (real (apneas s) * (3 / 4)) = \<lfloor>(3 / 4) * real (apneas s)\<rfloor>"
    by (simp add: py_int_def mult.commute)
  with a b c show ?thesis by simp
qed

lemma study_two_apneas_total:
  "map_sum id total_apneas (analyze_full_study (1 / 5) study_two_apneas) = Inr 2"
  by code_simp

theorem obstructive_central_split_witness:
  "\<exists>r. analyze_full_study (1 / 5) study_two_apneas = Inr r
     \<and> total_apneas r = 2 \<and> obstructive_apneas r = 1 \<and> central_apneas r = 1"
proof -
  have "time study_two_apneas \<noteq> []"
    and "length (flow_n study_two_apneas) \<le> length (activity_n study_two_apneas)"
    by (simp_all add: study_two_apneas_def)
  from analyze_returns [OF this(1) _ this(2), of "1 / 5"]
  obtain r where r: "analyze_full_study (1 / 5) study_two_apneas = Inr r" by auto
  with study_two_apneas_total have t: "total_apneas r = 2" by simp
  from obstructive_central_split [OF r] t
  have "obstructive_apneas r = 1" and "central_apneas r = 1" by simp_all
  with r t show ?thesis by blast
qed

section \<open>Zero hours in bed\<close>




section \<open>The duration gate of whole-study mode\<close>

text \<open>
  Claim C1, evaluated on the code. At 1.25 Hz the gate of the source is
  \<open>int(10 * 1.25) = 12\<close> samples, one below \<open>ceil(12.5) = 13\<close>. The study
  \<open>study_short_episode\<close> holds one episode of 12 samples: whole-study mode counts it as
  an apnea, and its duration is 9.6 seconds, below 10. Windowed mode, which compares the
  duration in seconds with 10, emits nothing for it.
\<close>

theorem short_episode_counted:
  "min_samples (5 / 4) = 12 \<and> \<lceil>10 * (5 / 4 :: real)\<rceil> = 13
   \<and> map_sum id (\<lambda>r. (total_apneas r, res_max_apnea_duration r, avg_apnea_duration r))
       (analyze_full_study (5 / 4) study_short_episode) = Inr (1, 48 / 5, 48 / 5)
   \<and> detect_respiratory_events study_short_episode 0 20 = []"
proof -
  have "min_samples (5 / 4) = 12"
    by (simp add: min_samples_def py_int_def)
  moreover have "\<lceil>10 * (5 / 4 :: real)\<rceil> = 13"
    by simp
  moreover have
    "map_sum id (\<lambda>r. (total_apneas r, res_max_apnea_duration r, avg_apnea_duration r))
       (analyze_full_study (5 / 4) study_short_episode) = Inr (1, 48 / 5, 48 / 5)"
    by code_simp
  moreover have "detect_respiratory_events study_short_episode 0 20 = []"
    by code_simp
  ultimately show ?thesis by blast
qed

section \<open>A sample of exactly 0.3 in windowed mode\<close>

text \<open>
  Claim C3, evaluated on the code. With an episode open, a sample of exactly 0.3 leaves
  the windowed machine in its episode (the source tests \<open>flow_val > 0.3\<close>), whereas the
  whole-study machine closes the episode there. On \<open>study_threshold\<close> the windowed
  episode therefore ends at 12 s instead of 11 s.
\<close>

theorem windowed_stays_open_at_threshold:
  "detect_step (11, 3 / 10) (Some (0, Apnea), []) = (Some (0, Apnea), [])
   \<and> detect_respiratory_events study_threshold 0 12
       = [\<lparr>ev_type = Apnea, start_time = 0, end_time = 12, duration = 12\<rparr>]
   \<and> map_sum id episode
       (event_detection 1 [1 / 2, 1 / 2, 1 / 2] 1 (3 / 10) 0 (init_state\<lparr>episode := Some (0, Apnea)\<rparr>))
       = Inr None"
proof -
  have "detect_step (11, 3 / 10) (Some (0, Apnea), []) = (Some (0, Apnea), [])"
    by simp
  moreover have "detect_respiratory_events study_threshold 0 12
       = [\<lparr>ev_type = Apnea, start_time = 0, end_time = 12, duration = 12\<rparr>]"
    by code_simp
  moreover have "map_sum id episode
       (event_detection 1 [1 / 2, 1 / 2, 1 / 2] 1 (3 / 10) 0 (init_state\<lparr>episode := Some (0, Apnea)\<rparr>))
       = Inr None"
    by code_simp
  ultimately show ?thesis by blast
qed

section \<open>The empty study\<close>

text \<open>
  Claim C7, evaluated on the code. On the empty study the whole-study analysis raises
  \<open>IndexError\<close> at \<open>time_series.iloc[-1]\<close>, before the scan starts; windowed mode returns
  no event.
\<close>

theorem empty_study_raises:
  "analyze_full_study 10 study_empty = Inl IndexError
   \<and> detect_respiratory_events study_empty 0 60 = []"
proof -
  have "analyze_full_study 10 study_empty = Inl IndexError"
    by (simp add: analyze_full_study_def iloc_last_def study_empty_def)
  moreover have "detect_respiratory_events study_empty 0 60 = []"
    by (simp add: detect_respiratory_events_def window_data_def iloc_slice_def study_empty_def)
  ultimately show ?thesis by blast
qed

section \<open>The window of windowed mode\<close>

lemma filter_zip_none:
  assumes "list_all (\<lambda>t. \<not> P t) ts"
  shows "filter (\<lambda>(t, f). P t) (zip ts fs) = []"
  using assms by (auto simp: filter_empty_conv list_all_iff dest: set_zip_leftD)

lemma count_none:
  assumes "list_all (\<lambda>t. \<not> P t) ts"
  shows "length (filter P ts) = 0"
  using assms by (simp add: filter_empty_conv list_all_iff)

lemma slice_zip:
  "zip (iloc_slice ts m n) (iloc_slice fs m n) = iloc_slice (zip ts fs) m n"
  by (simp add: iloc_slice_def take_zip drop_zip)

lemma sorted_slice_zip:
  fixes ts :: "real list"
  assumes "sorted ts"
  shows "iloc_slice (zip ts fs) (length (filter (\<lambda>t. t < a) ts)) (length (filter (\<lambda>t. t \<le> b) ts))
    = filter (\<lambda>(t, f). a \<le> t \<and> t \<le> b) (zip ts fs)"
  using assms
proof (induction ts arbitrary: fs)
  case Nil
  then show ?case by (simp add: iloc_slice_def)
next
  case (Cons t ts)
  show ?case
  proof (cases fs)
    case Nil
    then show ?thesis by (simp add: iloc_slice_def)
  next
    case (Cons f fs')
    from Cons.prems have srt: "sorted ts" and ge: "list_all (\<lambda>u. t \<le> u) ts"
      by (simp_all add: list_all_iff)
    note IH = Cons.IH [OF srt, of fs', unfolded iloc_slice_def]
    consider (below) "t < a" "t \<le> b" | (gap) "t < a" "b < t" | (inside) "a \<le> t" "t \<le> b"
      | (above) "a \<le> t" "b < t"
      by linarith
    then show ?thesis
    proof cases
      case below
      with IH Cons show ?thesis by (simp add: iloc_slice_def)
    next
      case gap
      from ge gap have "list_all (\<lambda>u. \<not> (a \<le> u \<and> u \<le> b)) ts" and "list_all (\<lambda>u. \<not> u \<le> b) ts"
        by (auto simp: list_all_iff)
      from filter_zip_none [OF this(1), of fs'] count_none [OF this(2)] gap Cons
      show ?thesis by (simp add: iloc_slice_def)
    next
      case inside
      from ge inside have "list_all (\<lambda>u. \<not> u < a) ts"
        by (auto simp: list_all_iff)
      from count_none [OF this] IH inside Cons
      show ?thesis by (simp add: iloc_slice_def)
    next
      case above
      from ge above have "list_all (\<lambda>u. \<not> (a \<le> u \<and> u \<le> b)) ts" and "list_all (\<lambda>u. \<not> u \<le> b) ts"
        and "list_all (\<lambda>u. \<not> u < a) ts"
        by (auto simp: list_all_iff)
      from filter_zip_none [OF this(1), of fs'] count_none [OF this(2)] count_none [OF this(3)] above Cons
      show ?thesis by (simp add: iloc_slice_def)
    qed
  qed
qed

text \<open>
  Claim C4, amended. On a sorted time axis windowed mode scans exactly the samples whose
  time satisfies \<open>start_time \<le> t \<le> end_time\<close>: the upper bound is included, because the
  source searches \<open>end_time\<close> with \<open>side='right'\<close>. Bounds outside the time axis clip: a
  window that covers the axis scans every sample, and a window that meets no sample
  scans nothing.
\<close>

theorem window_is_closed_interval:
  assumes "sorted (time sg)"
  shows "window_data sg start_t end_t
      = filter (\<lambda>(t, f). start_t \<le> t \<and> t \<le> end_t) (zip (time sg) (flow_n sg))
    \<and> (list_all (\<lambda>t. start_t \<le> t \<and> t \<le> end_t) (time sg)
         \<longrightarrow> window_data sg start_t end_t = zip (time sg) (flow_n sg))
    \<and> (list_all (\<lambda>t. t < start_t \<or> end_t < t) (time sg)
         \<longrightarrow> window_data sg start_t end_t = [])"
proof -
  have eq: "window_data sg start_t end_t
      = filter (\<lambda>(t, f). start_t \<le> t \<and> t \<le> end_t) (zip (time sg) (flow_n sg))"
    using sorted_slice_zip [OF assms, of "flow_n sg" start_t end_t]
    by (simp add: window_data_def searchsorted_def Let_def slice_zip)
  have "filter (\<lambda>(t, f). start_t \<le> t \<and> t \<le> end_t) (zip (time sg) (flow_n sg))
      = zip (time sg) (flow_n sg)"
    if "list_all (\<lambda>t. start_t \<le> t \<and> t \<le> end_t) (time sg)"
    using that by (auto simp: filter_id_conv list_all_iff dest: set_zip_leftD)
  moreover have "filter (\<lambda>(t, f). start_t \<le> t \<and> t \<le> end_t) (zip (time sg) (flow_n sg)) = []"
    if "list_all (\<lambda>t. t < start_t \<or> end_t < t) (time sg)"
    using that by (fastforce simp: filter_empty_conv list_all_iff dest: set_zip_leftD)
  ultimately show ?thesis using eq by simp
qed

theorem window_is_closed_interval_witness:
  "sorted (time study_unit_axis)
   \<and> window_data study_unit_axis 0 1 = [(0, 1 / 2), (1, 1 / 2)]
   \<and> window_data study_unit_axis (- 5) 60 = zip (time study_unit_axis) (flow_n study_unit_axis)"
proof -
  have s: "sorted (time study_unit_axis)"
    by (simp add: study_unit_axis_def)
  from window_is_closed_interval [OF s, of 0 1]
  have "window_data study_unit_axis 0 1 = [(0, 1 / 2), (1, 1 / 2)]"
    by (simp add: study_unit_axis_def)
  moreover from window_is_closed_interval [OF s, of "- 5" 60]
  have "window_data study_unit_axis (- 5) 60 = zip (time study_unit_axis) (flow_n study_unit_axis)"
    by (simp add: study_unit_axis_def)
  ultimately show ?thesis using s by blast
qed

text \<open>
  Claim C4 as stated fails: on \<open>study_unit_axis\<close> the window from 0 to 1 scans the sample
  at \<open>t = 1\<close>, which the half-open interval excludes.
\<close>

theorem window_not_half_open:
  "window_data study_unit_axis 0 1 = [(0, 1 / 2), (1, 1 / 2)]
   \<and> spec_window_data study_unit_axis 0 1 = [(0, 1 / 2)]"
  by (simp add: window_data_def spec_window_data_def searchsorted_def iloc_slice_def
      study_unit_axis_def)

section \<open>The normalizer\<close>

















lemma median_None_iff: "median xs = None \<longleftrightarrow> xs = []"
  by (simp add: median_def Let_def)








section \<open>Position tracking\<close>

text \<open>
  Claim C8, evaluated on the code. The analysis reads the key \<open>body_pos_n\<close>, which
  \<open>normalize_all_signals\<close> fills with the normalized position channel, and takes
  \<open>int()\<close> of each value as the position code. On \<open>raw_position_codes\<close> the codes 0 to 4
  become 0, 1/4, 1/2, 3/4 and 1, so four of the five samples are counted as code 0 and
  one as code 1: the report says 80% supine, 20% left, 0% right, 0% prone and has no
  other position, where each of the codes 0 to 4 holds 20% of the samples.
\<close>

theorem normalized_codes_miscounted:
  "normalize_series no_parse (Series (raw_body_pos raw_position_codes))
     = Inr [0, 1 / 4, 1 / 2, 3 / 4, 1]
   \<and> body_pos_n (normalize_all_signals no_parse raw_position_codes) = [0, 1 / 4, 1 / 2, 3 / 4, 1]
   \<and> map_sum id
        (\<lambda>r. (supine_percent r, left_percent r, right_percent r, prone_percent r,
              other_positions r))
        (analyze_full_study 10 (normalize_all_signals no_parse raw_position_codes))
       = Inr (80, 20, 0, 0, [])"
proof -
  have "normalize_series no_parse (Series (raw_body_pos raw_position_codes))
     = Inr [0, 1 / 4, 1 / 2, 3 / 4, 1]"
    by code_simp
  moreover have
    "body_pos_n (normalize_all_signals no_parse raw_position_codes) = [0, 1 / 4, 1 / 2, 3 / 4, 1]"
    by code_simp
  moreover have "map_sum id
        (\<lambda>r. (supine_percent r, left_percent r, right_percent r, prone_percent r,
              other_positions r))
        (analyze_full_study 10 (normalize_all_signals no_parse raw_position_codes))
       = Inr (80, 20, 0, 0, [])"
    by code_simp
  ultimately show ?thesis by blast
qed

section \<open>Whole-study mode and windowed mode on the same samples\<close>

lemma detect_step_exact: "detect_step_rounded (-) x ds = detect_step x ds"
proof -
  obtain t f where x: "x = (t, f)" by (cases x)
  obtain ep evs where ds: "ds = (ep, evs)" by (cases ds)
  show ?thesis
  proof (cases ep)
    case None
    with x ds show ?thesis by simp
  next
    case (Some p)
    obtain a ty where "p = (a, ty)" by (cases p)
    with Some x ds show ?thesis by simp
  qed
qed

lemma detect_events_exact:
  "detect_respiratory_events_rounded (-) sg start_t end_t
     = detect_respiratory_events sg start_t end_t"
proof -
  have "detect_step_rounded (-) = detect_step"
    by (intro ext) (rule detect_step_exact)
  then show ?thesis
    by (simp add: detect_respiratory_events_rounded_def detect_respiratory_events_def)
qed

lemma gate_iff:
  fixes sample_rate :: real
  assumes rate: "sample_rate > 0"
    and gate: "10 * sample_rate = real_of_int (min_samples sample_rate)"
    and close: "\<bar>real k / sample_rate - d\<bar> \<le> 3 * err"
    and margin: "3 * err < 1 / sample_rate"
    and ne: "int k \<noteq> min_samples sample_rate"
  shows "(min_samples sample_rate \<le> int k) \<longleftrightarrow> (10 \<le> d)"
proof (cases "min_samples sample_rate \<le> int k")
  case True
  with ne have "min_samples sample_rate + 1 \<le> int k" by simp
  then have "real_of_int (min_samples sample_rate + 1) \<le> real_of_int (int k)"
    by (simp only: of_int_le_iff)
  with gate have "10 * sample_rate + 1 \<le> real k" by simp
  then have "(10 * sample_rate + 1) / sample_rate \<le> real k / sample_rate"
    using rate by (simp add: divide_right_mono)
  moreover have "(10 * sample_rate + 1) / sample_rate = 10 + 1 / sample_rate"
    using rate by (simp add: field_simps)
  ultimately have "10 + 1 / sample_rate \<le> real k / sample_rate" by simp
  with close margin have "10 \<le> d" by linarith
  with True show ?thesis by simp
next
  case False
  then have "int k \<le> min_samples sample_rate - 1" by simp
  then have "real_of_int (int k) \<le> real_of_int (min_samples sample_rate - 1)"
    by (simp only: of_int_le_iff)
  with gate have "real k \<le> 10 * sample_rate - 1" by simp
  then have "real k / sample_rate \<le> (10 * sample_rate - 1) / sample_rate"
    using rate by (simp add: divide_right_mono)
  moreover have "(10 * sample_rate - 1) / sample_rate = 10 - 1 / sample_rate"
    using rate by (simp add: field_simps)
  ultimately have "real k / sample_rate \<le> 10 - 1 / sample_rate" by simp
  with close margin have "\<not> 10 \<le> d" by linarith
  with False show ?thesis by simp
qed

lemma durations_of_snoc:
  "durations_of ty (evs @ [e]) =
     (if ev_type e = ty then durations_of ty evs @ [duration e] else durations_of ty evs)"
  by (simp add: durations_of_def)

lemma fold_max_snoc: "fold max (ds @ [d]) (m :: real) = max (fold max ds m) d"
  by (simp add: max.commute)

lemma close_lists_snoc:
  assumes "close_lists tol xs ys" and "\<bar>x - y\<bar> \<le> tol"
  shows "close_lists tol (xs @ [x]) (ys @ [y])"
  using assms by (simp add: close_lists_def list_all2_appendI)

lemma event_detection_idle:
  assumes "episode s = None"
  shows "event_detection sample_rate activity i f pos s =
    Inr (if is_apnea f \<or> is_hypopnea f
         then s\<lparr>episode := Some (i, if is_apnea f then Apnea else Hypopnea)\<rparr> else s)"
  using assms by (simp add: event_detection_def)

lemma event_detection_stay:
  assumes "episode s = Some (j, ty)" and "is_apnea f \<or> is_hypopnea f"
  shows "event_detection sample_rate activity i f pos s = Inr s"
  using assms by (simp add: event_detection_def)

lemma event_detection_close:
  assumes "episode s = Some (j, ty)" and "\<not> (is_apnea f \<or> is_hypopnea f)"
    and "sample_rate \<noteq> 0" and "i < length activity" and "k = i - j"
  shows "event_detection sample_rate activity i f pos s =
    Inr (if min_samples sample_rate \<le> int k
         then count_event ty (real k / sample_rate) pos (rem_periods (activity ! i))
                (s\<lparr>episode := None\<rparr>)
         else s\<lparr>episode := None\<rparr>)"
  using assms by (simp add: event_detection_def iloc_def Let_def)

lemma modes_related_count_event:
  assumes "modes_related tol ts s (ep, evs)" and "\<bar>d - d'\<bar> \<le> tol"
  shows "modes_related tol ts (count_event ty d pos rem s)
    (ep, evs @ [\<lparr>ev_type = ty, start_time = a, end_time = b, duration = d'\<rparr>])"
  using assms
  by (cases ty)
    (simp_all add: modes_related_def count_event_def durations_of_snoc fold_max_snoc
      close_lists_snoc)

lemma episode_count_event: "episode (count_event ty d pos rem s) = episode s"
  by (cases ty) (simp_all add: count_event_def)

lemma episode_inv_frame:
  assumes "episode st' = episode st"
  shows "episode_inv sg i st' = episode_inv sg i st"
  using assms by (simp add: episode_inv_def)

lemma ten_second_episodeI:
  assumes inv: "episode_inv sg i st" and ep: "episode st = Some (j, ty)"
    and rec: "\<not> in_band (flow_n sg ! i)" and i: "i < length (flow_n sg)"
    and k: "int (i - j) = min_samples sample_rate"
  shows "ten_second_episode sample_rate sg j"
proof -
  from inv ep have ji: "j < i" and lm: "j = 0 \<or> \<not> in_band (flow_n sg ! (j - 1))"
    and low: "list_all (\<lambda>l. in_band (flow_n sg ! l)) [j..<i]"
    by (simp_all add: episode_inv_def)
  from k have "nat (min_samples sample_rate) = i - j" by simp
  with ji have "j + nat (min_samples sample_rate) = i" by simp
  with lm low rec i show ?thesis
    by (simp add: ten_second_episode_def Let_def)
qed

lemma modes_step:
  assumes rate: "sample_rate > 0"
    and gate: "10 * sample_rate = real_of_int (min_samples sample_rate)"
    and axis: "\<forall>j \<le> i. \<bar>time sg ! j - (origin + real j / sample_rate)\<bar> \<le> err"
    and subc: "\<forall>j \<le> i. \<bar>sub (time sg ! i) (time sg ! j) - (time sg ! i - time sg ! j)\<bar> \<le> err"
    and margin: "3 * err < 1 / sample_rate"
    and act: "i < length (activity_n sg)"
    and len: "i < length (flow_n sg)"
    and thr: "flow_n sg ! i \<noteq> 3 / 10"
    and nots: "no_ten_second_episode sample_rate sg"
    and rel: "modes_related (3 * err) (time sg) st ds"
    and inv: "episode_inv sg i st"
  shows "\<exists>st'. scan_step sample_rate sg i st = Inr st'
    \<and> modes_related (3 * err) (time sg) st'
          (detect_step_rounded sub (time sg ! i, flow_n sg ! i) ds)
    \<and> episode_inv sg (Suc i) st'"
proof -
  let ?f = "flow_n sg ! i"
  let ?pos = "if i < length (body_pos_n sg) then py_int (body_pos_n sg ! i) else 0"
  let ?s1 = "st\<lparr>position_counts := incr_count ?pos (position_counts st)\<rparr>"
  obtain ep evs where ds: "ds = (ep, evs)" by (cases ds)
  have rel1: "modes_related (3 * err) (time sg) ?s1 ds"
    using rel by (simp add: modes_related_def)
  have inv1: "episode_inv sg i ?s1"
    using inv by (simp add: episode_inv_def)
  have fl: "modes_related (3 * err) (time sg)
      (if is_flow_limitation ?f then s2\<lparr>flow_limitations := flow_limitations s2 + 1\<rparr> else s2) d
      = modes_related (3 * err) (time sg) s2 d" for s2 :: scan_state and d
    by (simp add: modes_related_def)
  have fe: "episode_inv sg (Suc i) (if is_flow_limitation ?f
      then s2\<lparr>flow_limitations := flow_limitations s2 + 1\<rparr> else s2) = episode_inv sg (Suc i) s2"
    for s2 :: scan_state
    by (simp add: episode_inv_def)
  have "\<exists>s2. event_detection sample_rate (activity_n sg) i ?f ?pos ?s1 = Inr s2
    \<and> modes_related (3 * err) (time sg) s2 (detect_step_rounded sub (time sg ! i, ?f) ds)
    \<and> episode_inv sg (Suc i) s2"
  proof (cases "episode st")
    case None
    with rel ds have ep: "ep = None" by (simp add: modes_related_def)
    from None have e1: "episode ?s1 = None" by simp
    note ed = event_detection_idle [OF e1, of sample_rate "activity_n sg" i ?f ?pos]
    from inv None have lm: "i = 0 \<or> \<not> in_band (flow_n sg ! (i - 1))"
      by (simp add: episode_inv_def)
    show ?thesis
    proof (cases "is_apnea ?f \<or> is_hypopnea ?f")
      case True
      with rel1 ep ds e1 lm show ?thesis
        unfolding ed
        by (auto simp: modes_related_def episode_inv_def in_band_def is_apnea_def is_hypopnea_def)
    next
      case False
      with rel1 ep ds e1 show ?thesis
        unfolding ed
        by (auto simp: modes_related_def episode_inv_def in_band_def is_apnea_def is_hypopnea_def)
    qed
  next
    case (Some p)
    obtain j ty where p: "p = (j, ty)" by (cases p)
    from inv Some p have ji: "j < i" and lm: "j = 0 \<or> \<not> in_band (flow_n sg ! (j - 1))"
      and low: "list_all (\<lambda>l. in_band (flow_n sg ! l)) [j..<i]"
      by (simp_all add: episode_inv_def)
    from rel ds Some p have ep: "ep = Some (time sg ! j, ty)" by (simp add: modes_related_def)
    from Some p have e1: "episode ?s1 = Some (j, ty)" by simp
    define k where "k = i - j"
    define d where "d = sub (time sg ! i) (time sg ! j)"
    have dur: "\<bar>real k / sample_rate - d\<bar> \<le> 3 * err"
    proof -
      from ji have "real k / sample_rate = (origin + real i / sample_rate) - (origin + real j / sample_rate)"
        by (simp add: k_def of_nat_diff diff_divide_distrib)
      moreover from axis have "\<bar>time sg ! i - (origin + real i / sample_rate)\<bar> \<le> err" by simp
      moreover from axis ji have "\<bar>time sg ! j - (origin + real j / sample_rate)\<bar> \<le> err" by simp
      moreover from subc ji have "\<bar>d - (time sg ! i - time sg ! j)\<bar> \<le> err" by (simp add: d_def)
      ultimately show ?thesis by linarith
    qed
    show ?thesis
    proof (cases "is_apnea ?f \<or> is_hypopnea ?f")
      case True
      then have ngt: "\<not> ?f > 3 / 10" by (auto simp: is_apnea_def is_hypopnea_def)
      note ed = event_detection_stay [OF e1 True, of sample_rate "activity_n sg" i ?pos]
      from ngt have "detect_step_rounded sub (time sg ! i, ?f) ds = ds"
        by (simp add: ds ep)
      moreover from ji have "[j..<Suc i] = [j..<i] @ [i]" by simp
      with e1 ji lm low True have "episode_inv sg (Suc i) ?s1"
        by (simp add: episode_inv_def in_band_def)
      ultimately show ?thesis using rel1 unfolding ed by simp
    next
      case False
      with thr have gt: "?f > 3 / 10" by (auto simp: is_apnea_def is_hypopnea_def)
      from rate have nz: "sample_rate \<noteq> 0" by simp
      note ed = event_detection_close [OF e1 False nz act k_def, of ?pos]
      have rel0: "modes_related (3 * err) (time sg) (?s1\<lparr>episode := None\<rparr>) (None, evs)"
        using rel1 ds by (simp add: modes_related_def)
      from False have rec: "\<not> in_band ?f" by (simp add: in_band_def)
      have kne: "int k \<noteq> min_samples sample_rate"
      proof
        assume "int k = min_samples sample_rate"
        then have "int (i - j) = min_samples sample_rate" by (simp add: k_def)
        from ten_second_episodeI [OF inv Some [unfolded p] rec len this]
        have "ten_second_episode sample_rate sg j" .
        moreover from ji len have "j \<in> set [0..<length (flow_n sg)]" by simp
        ultimately show False using nots
          unfolding no_ten_second_episode_def list_all_iff by blast
      qed
      note g = gate_iff [OF rate gate dur margin kne]
      have inv': "episode_inv sg (Suc i) s2" if "episode s2 = None" for s2 :: scan_state
        using that rec by (simp add: episode_inv_def)
      show ?thesis
      proof (cases "min_samples sample_rate \<le> int k")
        case True
        with g have long: "10 \<le> d" by simp
        from gt long have "detect_step_rounded sub (time sg ! i, ?f) ds
          = (None, evs @ [\<lparr>ev_type = ty, start_time = time sg ! j, end_time = time sg ! i,
                duration = d\<rparr>])"
          by (simp add: ds ep d_def)
        with modes_related_count_event [OF rel0 dur] True show ?thesis
          unfolding ed by (simp add: inv' episode_count_event)
      next
        case short: False
        with g have "\<not> 10 \<le> d" by simp
        with gt have "detect_step_rounded sub (time sg ! i, ?f) ds = (None, evs)"
          by (simp add: ds ep d_def)
        with rel0 short show ?thesis unfolding ed by (simp add: inv')
      qed
    qed
  qed
  then obtain s2 where
    e: "event_detection sample_rate (activity_n sg) i ?f ?pos ?s1 = Inr s2" and
    r2: "modes_related (3 * err) (time sg) s2 (detect_step_rounded sub (time sg ! i, ?f) ds)" and
    i2: "episode_inv sg (Suc i) s2"
    by blast
  have "scan_step sample_rate sg i st
      = Inr (if is_flow_limitation ?f then s2\<lparr>flow_limitations := flow_limitations s2 + 1\<rparr> else s2)"
    using e by (simp add: scan_step_def Let_def)
  with r2 i2 fl fe show ?thesis by simp
qed

lemma recovered_step:
  assumes "\<not> (is_apnea (flow_n sg ! i) \<or> is_hypopnea (flow_n sg ! i))"
    and "episode st = None" and "modes_related tol ts st ds"
  shows "\<exists>st'. scan_step sample_rate sg i st = Inr st'
    \<and> modes_related tol ts st' ds \<and> episode st' = None"
proof -
  let ?pos = "if i < length (body_pos_n sg) then py_int (body_pos_n sg ! i) else 0"
  let ?s1 = "st\<lparr>position_counts := incr_count ?pos (position_counts st)\<rparr>"
  from assms(2) have "episode ?s1 = None" by simp
  note ed = event_detection_idle [OF this, of sample_rate "activity_n sg" i "flow_n sg ! i" ?pos]
  from assms show ?thesis
    by (simp add: scan_step_def Let_def ed modes_related_def)
qed

lemma recovered_range:
  assumes "list_all (\<lambda>i. \<not> (is_apnea (flow_n sg ! i) \<or> is_hypopnea (flow_n sg ! i))) is"
    and "episode st = None" and "modes_related tol ts st ds"
  shows "\<exists>st'. scan_loop sample_rate sg is st = Inr st'
    \<and> modes_related tol ts st' ds \<and> episode st' = None"
  using assms
proof (induction "is" arbitrary: st)
  case Nil
  then show ?case by simp
next
  case (Cons i "is")
  from Cons.prems(1) have 1: "\<not> (is_apnea (flow_n sg ! i) \<or> is_hypopnea (flow_n sg ! i))"
    and 2: "list_all (\<lambda>i. \<not> (is_apnea (flow_n sg ! i) \<or> is_hypopnea (flow_n sg ! i))) is"
    by simp_all
  from recovered_step [OF 1 Cons.prems(2,3)] obtain s1 where
    a: "scan_step sample_rate sg i st = Inr s1" and b: "modes_related tol ts s1 ds"
    and c: "episode s1 = None"
    by blast
  from Cons.IH [OF 2 c b] a show ?case by simp
qed

lemma scan_loop_append:
  "scan_loop sample_rate sg (xs @ ys) st =
     (case scan_loop sample_rate sg xs st of
        Inl e \<Rightarrow> Inl e
      | Inr st' \<Rightarrow> scan_loop sample_rate sg ys st')"
  by (induction xs arbitrary: st) (simp_all split: sum.splits)

lemma modes_range:
  assumes rate: "sample_rate > 0"
    and gate: "10 * sample_rate = real_of_int (min_samples sample_rate)"
    and axis: "\<forall>j < length (time sg). \<bar>time sg ! j - (origin + real j / sample_rate)\<bar> \<le> err"
    and subc: "\<forall>i < length (time sg). \<forall>j < length (time sg).
        \<bar>sub (time sg ! i) (time sg ! j) - (time sg ! i - time sg ! j)\<bar> \<le> err"
    and margin: "3 * err < 1 / sample_rate"
    and act: "length (time sg) \<le> length (activity_n sg)"
    and len: "length (time sg) \<le> length (flow_n sg)"
    and thr: "\<forall>j < length (time sg). flow_n sg ! j \<noteq> 3 / 10"
    and nots: "no_ten_second_episode sample_rate sg"
    and rel: "modes_related (3 * err) (time sg) st0 (None, evs0)"
    and inv: "episode_inv sg s st0"
    and se: "s \<le> e"
  shows "e \<le> length (time sg) \<longrightarrow>
    (\<exists>st. scan_loop sample_rate sg [s..<e] st0 = Inr st
      \<and> modes_related (3 * err) (time sg) st
          (fold (detect_step_rounded sub)
             (map (\<lambda>i. (time sg ! i, flow_n sg ! i)) [s..<e]) (None, evs0))
      \<and> episode_inv sg e st)"
  using se
proof (induction e rule: dec_induct)
  case base
  from rel inv show ?case by simp
next
  case (step e)
  show ?case
  proof
    assume le: "Suc e \<le> length (time sg)"
    then have e: "e < length (time sg)" by simp
    with step.IH obtain st where
      1: "scan_loop sample_rate sg [s..<e] st0 = Inr st" and
      2: "modes_related (3 * err) (time sg) st
          (fold (detect_step_rounded sub)
             (map (\<lambda>i. (time sg ! i, flow_n sg ! i)) [s..<e]) (None, evs0))" and
      3: "episode_inv sg e st"
      by auto
    have ax: "\<forall>j \<le> e. \<bar>time sg ! j - (origin + real j / sample_rate)\<bar> \<le> err"
      using axis e by simp
    have sc: "\<forall>j \<le> e. \<bar>sub (time sg ! e) (time sg ! j) - (time sg ! e - time sg ! j)\<bar> \<le> err"
      using subc e by simp
    have ac: "e < length (activity_n sg)" using act e by simp
    have fl: "e < length (flow_n sg)" using len e by simp
    from modes_step [where sub = sub and i = e and sg = sg and origin = origin and err = err,
        OF rate gate ax sc margin ac fl thr [rule_format, OF e] nots 2 3]
    obtain st' where
      4: "scan_step sample_rate sg e st = Inr st'" and
      5: "modes_related (3 * err) (time sg) st'
          (detect_step_rounded sub (time sg ! e, flow_n sg ! e)
            (fold (detect_step_rounded sub)
               (map (\<lambda>i. (time sg ! i, flow_n sg ! i)) [s..<e]) (None, evs0)))" and
      6: "episode_inv sg (Suc e) st'"
      by blast
    from step.hyps have up: "[s..<Suc e] = [s..<e] @ [e]" by simp
    have "scan_loop sample_rate sg [s..<Suc e] st0 = Inr st'"
      unfolding up scan_loop_append using 1 4 by simp
    moreover have "modes_related (3 * err) (time sg) st'
          (fold (detect_step_rounded sub)
             (map (\<lambda>i. (time sg ! i, flow_n sg ! i)) [s..<Suc e]) (None, evs0))"
      unfolding up using 5 by simp
    ultimately show "\<exists>st. scan_loop sample_rate sg [s..<Suc e] st0 = Inr st
      \<and> modes_related (3 * err) (time sg) st
          (fold (detect_step_rounded sub)
             (map (\<lambda>i. (time sg ! i, flow_n sg ! i)) [s..<Suc e]) (None, evs0))
      \<and> episode_inv sg (Suc e) st"
      using 6 by blast
  qed
qed

lemma sorted_below_start:
  fixes ts :: "real list"
  assumes "sorted ts" and "i < length (filter (\<lambda>t. t < a) ts)"
  shows "ts ! i < a"
  using assms
proof (induction ts arbitrary: i)
  case Nil
  then show ?case by simp
next
  case (Cons t ts)
  show ?case
  proof (cases "t < a")
    case True
    with Cons show ?thesis by (cases i) simp_all
  next
    case False
    with Cons.prems(1) have "list_all (\<lambda>u. \<not> u < a) ts"
      by (auto simp: list_all_iff)
    from count_none [OF this] False Cons.prems(2) show ?thesis by simp
  qed
qed

lemma sorted_above_end:
  fixes ts :: "real list"
  assumes "sorted ts" and "length (filter (\<lambda>t. t \<le> b) ts) \<le> i" and "i < length ts"
  shows "b < ts ! i"
  using assms
proof (induction ts arbitrary: i)
  case Nil
  then show ?case by simp
next
  case (Cons t ts)
  show ?case
  proof (cases "t \<le> b")
    case True
    with Cons show ?thesis by (cases i) simp_all
  next
    case False
    show ?thesis
    proof (cases i)
      case 0
      with False show ?thesis by simp
    next
      case (Suc i')
      with Cons.prems(3) have "ts ! i' \<in> set ts" by simp
      with Cons.prems(1) have "t \<le> ts ! i'" by simp
      with False Suc show ?thesis by simp
    qed
  qed
qed

lemma slice_indices:
  assumes "e \<le> length xs"
  shows "iloc_slice xs s e = map ((!) xs) [s..<e]"
  using assms by (auto simp: iloc_slice_def list_eq_iff_nth_eq)

lemma window_data_indices:
  assumes "length (flow_n sg) = length (time sg)"
  shows "window_data sg start_t end_t =
    map (\<lambda>i. (time sg ! i, flow_n sg ! i))
      [searchsorted (time sg) start_t Left..<searchsorted (time sg) end_t Right]"
proof -
  let ?s = "searchsorted (time sg) start_t Left" and ?e = "searchsorted (time sg) end_t Right"
  have e: "?e \<le> length (time sg)" by (simp add: searchsorted_def)
  with assms have e': "?e \<le> length (flow_n sg)" by simp
  show ?thesis
    unfolding window_data_def Let_def slice_indices [OF e] slice_indices [OF e']
    by (simp add: zip_map_map zip_same_conv_map)
qed

lemma analyze_events:
  assumes "scan_loop sample_rate sg [0..<length (flow_n sg)] init_state = Inr s"
    and "time sg \<noteq> []"
  shows "\<exists>r. analyze_full_study sample_rate sg = Inr r
    \<and> total_apneas r = apneas s \<and> res_hypopneas r = hypopneas s
    \<and> res_max_apnea_duration r = max_apnea_duration s
    \<and> res_max_hypopnea_duration r = max_hypopnea_duration s
    \<and> avg_apnea_duration r = mean_or_zero (apnea_durations s)
    \<and> avg_hypopnea_duration r = mean_or_zero (hypopnea_durations s)"
  using assms by (simp add: analyze_full_study_def iloc_last_def iloc_def Let_def)

lemma length_durations_of:
  "length (durations_of ty evs) = count_where (\<lambda>e. ev_type e = ty) evs"
  by (simp add: durations_of_def count_where_def)

lemma count_types:
  "length evs = count_where (\<lambda>e. ev_type e = Apnea) evs + count_where (\<lambda>e. ev_type e = Hypopnea) evs"
proof (induction evs)
  case Nil
  then show ?case by (simp add: count_where_def)
next
  case (Cons e evs)
  then show ?case by (cases "ev_type e") (simp_all add: count_where_def)
qed

lemma upt_split:
  "lo \<le> mid \<Longrightarrow> mid \<le> hi \<Longrightarrow> [lo..<hi] = [lo..<mid] @ [mid..<hi]"
proof (induction hi)
  case 0
  then show ?case by simp
next
  case (Suc hi)
  then show ?case by (cases "mid = Suc hi") simp_all
qed

lemma close_lists_length:
  assumes "close_lists tol xs ys"
  shows "length xs = length ys"
  using assms by (simp add: close_lists_def list_all2_lengthD)

lemma close_lists_fold_max:
  assumes "close_lists tol xs ys" and "\<bar>a - b\<bar> \<le> tol"
  shows "\<bar>fold max xs a - fold max ys b\<bar> \<le> tol"
  using assms unfolding close_lists_def
proof (induction xs ys arbitrary: a b rule: list_all2_induct)
  case Nil
  then show ?case by simp
next
  case (Cons x xs y ys)
  from Cons.hyps(1) Cons.prems have "\<bar>max x a - max y b\<bar> \<le> tol"
    by (auto simp: max_def)
  from Cons.IH [OF this] show ?case by simp
qed

lemma close_lists_sum:
  assumes "close_lists tol xs ys"
  shows "\<bar>sum_list xs - sum_list ys\<bar> \<le> real (length xs) * tol"
  using assms unfolding close_lists_def
proof (induction xs ys rule: list_all2_induct)
  case Nil
  then show ?case by simp
next
  case (Cons x xs y ys)
  have "real (length (x # xs)) * tol = tol + real (length xs) * tol"
    by (simp add: algebra_simps)
  with Cons show ?case by (simp add: abs_le_iff)
qed

lemma close_lists_mean:
  assumes "close_lists tol xs ys"
  shows "\<bar>mean_or_zero xs - mean_or_zero ys\<bar> \<le> \<bar>tol\<bar>"
proof (cases "xs = []")
  case True
  with close_lists_length [OF assms] show ?thesis by (simp add: mean_or_zero_def)
next
  case False
  with close_lists_length [OF assms] have ys: "ys \<noteq> []" and len: "length ys = length xs"
    by auto
  from False have pos: "0 < real (length xs)" by simp
  have "mean_or_zero xs - mean_or_zero ys = (sum_list xs - sum_list ys) / real (length xs)"
    using False ys len by (simp add: mean_or_zero_def diff_divide_distrib)
  then have "\<bar>mean_or_zero xs - mean_or_zero ys\<bar>
      = \<bar>sum_list xs - sum_list ys\<bar> / real (length xs)"
    using pos by simp
  also have "\<dots> \<le> (real (length xs) * tol) / real (length xs)"
    by (rule divide_right_mono [OF close_lists_sum [OF assms]]) simp
  also have "\<dots> = tol" using pos by simp
  finally show ?thesis by simp
qed

lemma modes_agree_state:
  assumes rate: "sample_rate > 0"
    and gate: "10 * sample_rate = real_of_int (min_samples sample_rate)"
    and axis: "\<forall>i < length (time sg). \<bar>time sg ! i - (origin + real i / sample_rate)\<bar> \<le> err"
    and subc: "\<forall>i < length (time sg). \<forall>j < length (time sg).
        \<bar>sub (time sg ! i) (time sg ! j) - (time sg ! i - time sg ! j)\<bar> \<le> err"
    and margin: "3 * err < 1 / sample_rate"
    and lf: "length (flow_n sg) = length (time sg)"
    and la: "length (activity_n sg) = length (time sg)"
    and thr: "list_all (\<lambda>f. f \<noteq> 3 / 10) (flow_n sg)"
    and ins: "episodes_inside sg start_t end_t"
    and nots: "no_ten_second_episode sample_rate sg"
  shows "\<exists>st. scan_loop sample_rate sg [0..<length (flow_n sg)] init_state = Inr st
    \<and> modes_related (3 * err) (time sg) st
          (fold (detect_step_rounded sub) (window_data sg start_t end_t) (None, []))"
proof -
  define n where "n = length (time sg)"
  define s where "s = searchsorted (time sg) start_t Left"
  define e where "e = max s (searchsorted (time sg) end_t Right)"
  let ?low = "\<lambda>i. is_apnea (flow_n sg ! i) \<or> is_hypopnea (flow_n sg ! i)"
  have srt: "sorted (time sg)"
    unfolding sorted_iff_nth_mono
  proof (intro allI impI)
    fix i j
    assume ij: "i \<le> j" and j: "j < length (time sg)"
    show "time sg ! i \<le> time sg ! j"
    proof (cases "i = j")
      case True
      then show ?thesis by simp
    next
      case False
      with ij have lt: "i < j" by simp
      from axis j have aj: "\<bar>time sg ! j - (origin + real j / sample_rate)\<bar> \<le> err" by simp
      from axis j lt have ai: "\<bar>time sg ! i - (origin + real i / sample_rate)\<bar> \<le> err" by simp
      from lt have "real i + 1 \<le> real j" by simp
      then have "(real i + 1) / sample_rate \<le> real j / sample_rate"
        using rate by (simp add: divide_right_mono)
      then have "real i / sample_rate + 1 / sample_rate \<le> real j / sample_rate"
        by (simp add: add_divide_distrib)
      with ai aj margin show ?thesis by linarith
    qed
  qed
  have sn: "s \<le> n" and se: "s \<le> e" and en: "e \<le> n"
    by (simp_all add: s_def e_def n_def searchsorted_def)
  have rec: "\<not> ?low i" if "i < n" and
    "time sg ! i < start_t \<or> end_t < time sg ! i \<or> (Suc i < n \<and> end_t < time sg ! Suc i)" for i
  proof -
    from that(1) have "i \<in> set [0..<length (time sg)]" by (simp add: n_def)
    with ins that(2) have "flow_n sg ! i \<ge> 3 / 10"
      unfolding episodes_inside_def list_all_iff n_def by blast
    then show ?thesis by (simp add: is_apnea_def is_hypopnea_def)
  qed
  have before: "time sg ! i < start_t" if "i < s" for i
    using sorted_below_start [OF srt, of i start_t] that by (simp add: s_def searchsorted_def)
  have after: "end_t < time sg ! i" if "e \<le> i" and "i < n" for i
  proof -
    from that have "length (filter (\<lambda>t. t \<le> end_t) (time sg)) \<le> i"
      by (simp add: e_def searchsorted_def)
    from sorted_above_end [OF srt this] that show ?thesis by (simp add: n_def)
  qed
  have split: "[0..<length (flow_n sg)] = [0..<s] @ [s..<e] @ [e..<n]"
  proof -
    have "[0..<n] = [0..<s] @ [s..<n]" by (rule upt_split) (use sn in simp_all)
    also have "[s..<n] = [s..<e] @ [e..<n]" by (rule upt_split) (use se en in simp_all)
    finally show ?thesis using lf by (simp add: n_def)
  qed
  have win: "window_data sg start_t end_t = map (\<lambda>i. (time sg ! i, flow_n sg ! i)) [s..<e]"
  proof (cases "s \<le> searchsorted (time sg) end_t Right")
    case True
    then have "e = searchsorted (time sg) end_t Right" by (simp add: e_def)
    with window_data_indices [OF lf] show ?thesis by (simp add: s_def)
  next
    case False
    then have "e = s" by (simp add: e_def)
    with window_data_indices [OF lf, of start_t end_t] False show ?thesis by (simp add: s_def)
  qed
  have rel0: "modes_related (3 * err) (time sg) init_state (None, [])"
    by (simp add: modes_related_def init_state_def durations_of_def close_lists_def)
  have idle0: "episode init_state = None"
    by (simp add: init_state_def)
  have "list_all (\<lambda>i. \<not> ?low i) [0..<s]"
    using before rec sn by (auto simp: list_all_iff)
  from recovered_range [OF this idle0 rel0] obtain st1 where
    1: "scan_loop sample_rate sg [0..<s] init_state = Inr st1" and
    r1: "modes_related (3 * err) (time sg) st1 (None, [])" and i1: "episode st1 = None"
    by blast
  have inv1: "episode_inv sg s st1"
  proof (cases "s = 0")
    case True
    with i1 show ?thesis by (simp add: episode_inv_def)
  next
    case False
    with sn have "s - 1 < n" and "s - 1 < s" by simp_all
    with before [of "s - 1"] rec [of "s - 1"] have "\<not> ?low (s - 1)" by simp
    with i1 show ?thesis by (simp add: episode_inv_def in_band_def)
  qed
  have thr': "\<forall>j < length (time sg). flow_n sg ! j \<noteq> 3 / 10"
    using thr lf by (simp add: list_all_length)
  have act: "length (time sg) \<le> length (activity_n sg)"
    and len: "length (time sg) \<le> length (flow_n sg)"
    using la lf by simp_all
  from modes_range [where sub = sub and sg = sg and origin = origin and err = err,
      OF rate gate axis subc margin act len thr' nots r1 inv1 se] en
  obtain st2 where
    2: "scan_loop sample_rate sg [s..<e] st1 = Inr st2" and
    r2: "modes_related (3 * err) (time sg) st2
          (fold (detect_step_rounded sub)
             (map (\<lambda>i. (time sg ! i, flow_n sg ! i)) [s..<e]) (None, []))" and
    c2: "episode_inv sg e st2"
    by (auto simp: n_def)
  have "\<exists>st3. scan_loop sample_rate sg [e..<n] st2 = Inr st3
      \<and> modes_related (3 * err) (time sg) st3
          (fold (detect_step_rounded sub)
             (map (\<lambda>i. (time sg ! i, flow_n sg ! i)) [s..<e]) (None, []))"
  proof (cases "e < n")
    case False
    with r2 show ?thesis by simp
  next
    case True
    have i2: "episode st2 = None"
    proof (cases "episode st2")
      case None
      then show ?thesis .
    next
      case (Some p)
      obtain j ty where "p = (j, ty)" by (cases p)
      with c2 Some have je: "j < e" and low: "list_all (\<lambda>l. in_band (flow_n sg ! l)) [j..<e]"
        by (simp_all add: episode_inv_def)
      from je have "e - 1 \<in> set [j..<e]" by simp
      with low have "?low (e - 1)" unfolding list_all_iff in_band_def by blast
      moreover from True after [of e] have "end_t < time sg ! e" by simp
      with True je have "Suc (e - 1) < n \<and> end_t < time sg ! Suc (e - 1)" by simp
      with rec [of "e - 1"] True have "\<not> ?low (e - 1)" by simp
      ultimately show ?thesis by simp
    qed
    have "list_all (\<lambda>i. \<not> ?low i) [e..<n]"
      using after rec by (auto simp: list_all_iff)
    from recovered_range [OF this i2 r2] show ?thesis by blast
  qed
  then obtain st3 where
    3: "scan_loop sample_rate sg [e..<n] st2 = Inr st3" and
    r3: "modes_related (3 * err) (time sg) st3
          (fold (detect_step_rounded sub)
             (map (\<lambda>i. (time sg ! i, flow_n sg ! i)) [s..<e]) (None, []))"
    by blast
  have "scan_loop sample_rate sg [0..<length (flow_n sg)] init_state = Inr st3"
    unfolding split scan_loop_append using 1 2 3 by simp
  with r3 win show ?thesis by simp
qed

text \<open>
  Claim C2, amended. Take a study with a positive sample rate for which \<open>10 * sample_rate\<close>
  is the whole number \<open>int(10 * sample_rate)\<close>, flow and activity channels aligned with
  the time axis, no flow sample equal to 0.3 and no episode of exactly
  \<open>10 * sample_rate\<close> samples. Let the time axis lie within \<open>err\<close> of the grid
  \<open>origin + i / sample_rate\<close>, let the subtraction of windowed mode lie within \<open>err\<close> of the
  exact difference on the time axis, and let \<open>3 * err < 1 / sample_rate\<close>. Take a window
  that contains every episode. Then the whole-study analysis returns, it counts as many
  apneas and hypopneas as the windowed classification of that window emits events of
  these types, and the maximal and the mean duration per type of the two modes differ
  by at most \<open>3 * err\<close>. The test signal of 600 samples is the witness below: there the
  differences are exact.
\<close>

theorem modes_agree:
  assumes "sample_rate > 0"
    and "10 * sample_rate = real_of_int (min_samples sample_rate)"
    and "time sg \<noteq> []"
    and "\<forall>i < length (time sg). \<bar>time sg ! i - (origin + real i / sample_rate)\<bar> \<le> err"
    and "\<forall>i < length (time sg). \<forall>j < length (time sg).
        \<bar>sub (time sg ! i) (time sg ! j) - (time sg ! i - time sg ! j)\<bar> \<le> err"
    and "3 * err < 1 / sample_rate"
    and "length (flow_n sg) = length (time sg)"
    and "length (activity_n sg) = length (time sg)"
    and "list_all (\<lambda>f. f \<noteq> 3 / 10) (flow_n sg)"
    and "no_ten_second_episode sample_rate sg"
    and "episodes_inside sg start_t end_t"
  shows "\<exists>r. analyze_full_study sample_rate sg = Inr r
    \<and> total_apneas r
        = count_where (\<lambda>e. ev_type e = Apnea)
            (detect_respiratory_events_rounded sub sg start_t end_t)
    \<and> res_hypopneas r
        = count_where (\<lambda>e. ev_type e = Hypopnea)
            (detect_respiratory_events_rounded sub sg start_t end_t)
    \<and> total_apneas r + res_hypopneas r
        = length (detect_respiratory_events_rounded sub sg start_t end_t)
    \<and> \<bar>res_max_apnea_duration r
        - fold max (durations_of Apnea (detect_respiratory_events_rounded sub sg start_t end_t)) 0\<bar>
        \<le> 3 * err
    \<and> \<bar>avg_apnea_duration r
        - mean_or_zero (durations_of Apnea (detect_respiratory_events_rounded sub sg start_t end_t))\<bar>
        \<le> 3 * err
    \<and> \<bar>res_max_hypopnea_duration r
        - fold max (durations_of Hypopnea (detect_respiratory_events_rounded sub sg start_t end_t)) 0\<bar>
        \<le> 3 * err
    \<and> \<bar>avg_hypopnea_duration r
        - mean_or_zero (durations_of Hypopnea (detect_respiratory_events_rounded sub sg start_t end_t))\<bar>
        \<le> 3 * err"
proof -
  let ?evs = "detect_respiratory_events_rounded sub sg start_t end_t"
  from assms(3) have "0 < length (time sg)" by simp
  with assms(4) have "\<bar>time sg ! 0 - (origin + real (0::nat) / sample_rate)\<bar> \<le> err" by blast
  then have tol: "0 \<le> 3 * err" by simp
  from modes_agree_state [where sub = sub, OF assms(1,2,4,5,6,7,8,9,11,10)] obtain st where
    s: "scan_loop sample_rate sg [0..<length (flow_n sg)] init_state = Inr st" and
    m: "modes_related (3 * err) (time sg) st
          (fold (detect_step_rounded sub) (window_data sg start_t end_t) (None, []))"
    by blast
  from m have ca: "close_lists (3 * err) (apnea_durations st) (durations_of Apnea ?evs)"
    and ch: "close_lists (3 * err) (hypopnea_durations st) (durations_of Hypopnea ?evs)"
    and d: "apneas st = length (apnea_durations st)"
      "hypopneas st = length (hypopnea_durations st)"
      "max_apnea_duration st = fold max (apnea_durations st) 0"
      "max_hypopnea_duration st = fold max (hypopnea_durations st) 0"
    by (simp_all add: modes_related_def detect_respiratory_events_rounded_def)
  from analyze_events [OF s assms(3)] obtain r where
    r: "analyze_full_study sample_rate sg = Inr r" and
    f: "total_apneas r = apneas st" "res_hypopneas r = hypopneas st"
      "res_max_apnea_duration r = max_apnea_duration st"
      "res_max_hypopnea_duration r = max_hypopnea_duration st"
      "avg_apnea_duration r = mean_or_zero (apnea_durations st)"
      "avg_hypopnea_duration r = mean_or_zero (hypopnea_durations st)"
    by blast
  have "total_apneas r = count_where (\<lambda>e. ev_type e = Apnea) ?evs"
    and "res_hypopneas r = count_where (\<lambda>e. ev_type e = Hypopnea) ?evs"
    using f d close_lists_length [OF ca] close_lists_length [OF ch]
    by (simp_all add: length_durations_of)
  moreover from this have "total_apneas r + res_hypopneas r = length ?evs"
    using count_types [of ?evs] by simp
  moreover have "\<bar>res_max_apnea_duration r - fold max (durations_of Apnea ?evs) 0\<bar> \<le> 3 * err"
    using close_lists_fold_max [OF ca, of 0 0] tol f d by simp
  moreover have "\<bar>res_max_hypopnea_duration r - fold max (durations_of Hypopnea ?evs) 0\<bar> \<le> 3 * err"
    using close_lists_fold_max [OF ch, of 0 0] tol f d by simp
  moreover have "\<bar>avg_apnea_duration r - mean_or_zero (durations_of Apnea ?evs)\<bar> \<le> 3 * err"
    using close_lists_mean [OF ca] tol f by simp
  moreover have "\<bar>avg_hypopnea_duration r - mean_or_zero (durations_of Hypopnea ?evs)\<bar> \<le> 3 * err"
    using close_lists_mean [OF ch] tol f by simp
  ultimately show ?thesis using r by blast
qed

lemma fold_idle_recovered:
  assumes "list_all (\<lambda>p. snd p \<ge> 3 / 10) xs"
  shows "fold detect_step xs (None, evs) = (None, evs)"
  using assms by (induction xs) auto

lemma fold_open_low:
  assumes "list_all (\<lambda>p. \<not> snd p > 3 / 10) xs"
  shows "fold detect_step xs (Some e, evs) = (Some e, evs)"
  using assms
proof (induction xs)
  case Nil
  then show ?case by simp
next
  case (Cons x xs)
  obtain t f where "x = (t, f)" by (cases x)
  moreover obtain a ty where "e = (a, ty)" by (cases e)
  ultimately show ?case using Cons by simp
qed

lemma dip_time: "i < 600 \<Longrightarrow> time study_dip ! i = real i / 10"
  by (simp add: study_dip_def)

lemma dip_flow:
  "i < 600 \<Longrightarrow> flow_n study_dip ! i = (if 100 \<le> i \<and> i < 220 then 1 / 20 else 1)"
  by (auto simp: study_dip_def nth_append)

lemma dip_lengths:
  "length (time study_dip) = 600" "length (flow_n study_dip) = 600"
  "length (activity_n study_dip) = 600"
  by (simp_all add: study_dip_def)

lemma dip_window: "window_data study_dip 0 60
    = map (\<lambda>i. (time study_dip ! i, flow_n study_dip ! i)) [0..<600]"
proof -
  have "filter (\<lambda>t. t < 0) (time study_dip) = []"
    by (auto simp: filter_empty_conv study_dip_def)
  then have s: "searchsorted (time study_dip) 0 Left = 0"
    by (simp add: searchsorted_def)
  have "filter (\<lambda>t. t \<le> 60) (time study_dip) = time study_dip"
    by (auto simp: filter_id_conv study_dip_def)
  then have e: "searchsorted (time study_dip) 60 Right = 600"
    by (simp add: searchsorted_def dip_lengths)
  from window_data_indices [of study_dip 0 60] show ?thesis
    by (simp add: s e dip_lengths)
qed

lemma dip_events:
  "detect_respiratory_events study_dip 0 60
     = [\<lparr>ev_type = Apnea, start_time = 10, end_time = 22, duration = 12\<rparr>]"
proof -
  let ?g = "\<lambda>i. (time study_dip ! i, flow_n study_dip ! i)"
  have split: "[0..<600] = [0..<100] @ 100 # [101..<220] @ 220 # [221..<600]"
  proof -
    have "[0..<600] = [0..<100] @ [100..<600]" by (rule upt_split) simp_all
    also have "[100..<600] = [100..<220] @ [220..<600]" by (rule upt_split) simp_all
    also have "[100..<220] = 100 # [101..<220]" by (simp add: upt_conv_Cons)
    also have "[220..<600] = 220 # [221..<600]" by (simp add: upt_conv_Cons)
    finally show ?thesis by simp
  qed
  have 1: "fold detect_step (map ?g [0..<100]) (None, []) = (None, [])"
    by (rule fold_idle_recovered) (simp add: list_all_iff dip_flow)
  have 2: "detect_step (?g 100) (None, []) = (Some (10, Apnea), [])"
    by (simp add: dip_flow dip_time)
  have 3: "fold detect_step (map ?g [101..<220]) (Some (10, Apnea), []) = (Some (10, Apnea), [])"
    by (rule fold_open_low) (simp add: list_all_iff dip_flow)
  have 4: "detect_step (?g 220) (Some (10, Apnea), [])
      = (None, [\<lparr>ev_type = Apnea, start_time = 10, end_time = 22, duration = 12\<rparr>])"
    by (simp add: dip_flow dip_time)
  have 5: "fold detect_step (map ?g [221..<600])
        (None, [\<lparr>ev_type = Apnea, start_time = 10, end_time = 22, duration = 12\<rparr>])
      = (None, [\<lparr>ev_type = Apnea, start_time = 10, end_time = 22, duration = 12\<rparr>])"
    by (rule fold_idle_recovered) (simp add: list_all_iff dip_flow)
  show ?thesis
    unfolding detect_respiratory_events_def dip_window split
    by (simp only: map_append list.map fold_append fold_simps comp_apply 1 2 3 4 5 snd_conv)
qed

lemma dip_inside: "episodes_inside study_dip 0 60"
  unfolding episodes_inside_def list_all_iff dip_lengths
proof (intro ballI impI)
  fix i
  assume "i \<in> set [0..<600]"
  then have i: "i < 600" by simp
  assume c: "time study_dip ! i < 0 \<or> 60 < time study_dip ! i
    \<or> (Suc i < 600 \<and> 60 < time study_dip ! Suc i)"
  have "\<not> time study_dip ! i < 0" "\<not> 60 < time study_dip ! i"
    using i by (simp_all add: dip_time)
  moreover have "\<not> 60 < time study_dip ! Suc i" if "Suc i < 600"
    using that dip_time [of "Suc i"] by simp
  ultimately show "3 / 10 \<le> flow_n study_dip ! i" using c by blast
qed

lemma dip_band: "i < 600 \<Longrightarrow> in_band (flow_n study_dip ! i) \<longleftrightarrow> (100 \<le> i \<and> i < 220)"
  by (simp add: dip_flow in_band_def is_apnea_def is_hypopnea_def)

lemma dip_no_ten_second_episode: "no_ten_second_episode 10 study_dip"
  unfolding no_ten_second_episode_def list_all_iff dip_lengths
proof (intro ballI notI)
  fix j
  assume "j \<in> set [0..<600]"
  then have j: "j < 600" by simp
  have m: "nat (min_samples 10) = 100"
    by (simp add: min_samples_def py_int_def)
  assume "ten_second_episode 10 study_dip j"
  then have far: "j + 100 < 600"
    and lm: "j = 0 \<or> \<not> in_band (flow_n study_dip ! (j - 1))"
    and low: "list_all (\<lambda>l. in_band (flow_n study_dip ! l)) [j..<j + 100]"
    and rec: "\<not> in_band (flow_n study_dip ! (j + 100))"
    by (simp_all add: ten_second_episode_def Let_def m dip_lengths)
  from low have "in_band (flow_n study_dip ! j)" by (simp add: list_all_iff)
  with j have a: "100 \<le> j" "j < 220" by (simp_all add: dip_band)
  with lm j have "\<not> (100 \<le> j - 1 \<and> j - 1 < 220)" by (simp add: dip_band)
  with a have "j = 100" by arith
  with rec show False by (simp add: dip_band)
qed

theorem modes_agree_witness:
  "no_ten_second_episode 10 study_dip \<and> episodes_inside study_dip 0 60
   \<and> detect_respiratory_events study_dip 0 60
       = [\<lparr>ev_type = Apnea, start_time = 10, end_time = 22, duration = 12\<rparr>]
   \<and> (\<exists>r. analyze_full_study 10 study_dip = Inr r
        \<and> total_apneas r = 1 \<and> res_hypopneas r = 0
        \<and> res_max_apnea_duration r = 12 \<and> avg_apnea_duration r = 12)"
proof -
  have gate: "10 * (10::real) = real_of_int (min_samples 10)"
    by (simp add: min_samples_def py_int_def)
  have ne: "time study_dip \<noteq> []"
    by (simp add: study_dip_def)
  have axis: "\<forall>i < length (time study_dip).
      \<bar>time study_dip ! i - (0 + real i / 10)\<bar> \<le> 0"
    by (simp add: dip_lengths dip_time)
  have subc: "\<forall>i < length (time study_dip). \<forall>j < length (time study_dip).
      \<bar>(time study_dip ! i - time study_dip ! j) - (time study_dip ! i - time study_dip ! j)\<bar> \<le> 0"
    by simp
  have margin: "3 * (0::real) < 1 / 10"
    by simp
  have lf: "length (flow_n study_dip) = length (time study_dip)"
    and la: "length (activity_n study_dip) = length (time study_dip)"
    by (simp_all add: dip_lengths)
  have thr: "list_all (\<lambda>f. f \<noteq> 3 / 10) (flow_n study_dip)"
    by (simp add: study_dip_def list_all_iff)
  from modes_agree [where sub = "(-)" and err = 0 and origin = 0,
      OF _ gate ne axis subc margin lf la thr dip_no_ten_second_episode dip_inside]
  obtain r where r: "analyze_full_study 10 study_dip = Inr r"
    and "total_apneas r
        = count_where (\<lambda>e. ev_type e = Apnea) (detect_respiratory_events study_dip 0 60)"
    and "res_hypopneas r
        = count_where (\<lambda>e. ev_type e = Hypopnea) (detect_respiratory_events study_dip 0 60)"
    and "\<bar>res_max_apnea_duration r
        - fold max (durations_of Apnea (detect_respiratory_events study_dip 0 60)) 0\<bar> \<le> 3 * 0"
    and "\<bar>avg_apnea_duration r
        - mean_or_zero (durations_of Apnea (detect_respiratory_events study_dip 0 60))\<bar> \<le> 3 * 0"
    unfolding detect_events_exact by auto
  then have "total_apneas r = 1" "res_hypopneas r = 0"
    "res_max_apnea_duration r = 12" "avg_apnea_duration r = 12"
    unfolding dip_events
    by (simp_all add: count_where_def durations_of_def mean_or_zero_def)
  with r dip_no_ten_second_episode dip_inside dip_events show ?thesis by blast
qed

text \<open>
  Why an episode of exactly 10 seconds is excluded. On \<open>study_ten_seconds\<close>, sampled at
  2.5 Hz, the flow is in the apnea band from 6.4 s to 16.4 s, 25 samples. Whole-study
  mode counts the episode, since 25 samples meet the gate of 25. With a subtraction that
  returns a little less than the exact difference, as the doubles of the source do for
  \<open>16.4 - 6.4\<close>, windowed mode measures less than 10 seconds and emits nothing.
\<close>

lemma ten_second_episode_dropped:
  "ten_second_episode (5 / 2) study_ten_seconds 16
   \<and> map_sum id total_apneas (analyze_full_study (5 / 2) study_ten_seconds) = Inr 1
   \<and> detect_respiratory_events_rounded sub_below study_ten_seconds 0 20 = []
   \<and> detect_respiratory_events study_ten_seconds 0 20
       = [\<lparr>ev_type = Apnea, start_time = 32 / 5, end_time = 82 / 5, duration = 10\<rparr>]"
proof -
  have "ten_second_episode (5 / 2) study_ten_seconds 16"
    by (auto simp: ten_second_episode_def min_samples_def py_int_def Let_def in_band_def
        is_apnea_def is_hypopnea_def study_ten_seconds_def list_all_iff nth_append)
  moreover have "map_sum id total_apneas (analyze_full_study (5 / 2) study_ten_seconds) = Inr 1"
    by code_simp
  moreover have "detect_respiratory_events_rounded sub_below study_ten_seconds 0 20 = []"
    by code_simp
  moreover have "detect_respiratory_events study_ten_seconds 0 20
       = [\<lparr>ev_type = Apnea, start_time = 32 / 5, end_time = 82 / 5, duration = 10\<rparr>]"
    by code_simp
  ultimately show ?thesis by blast
qed

text \<open>
  Claim C2 as stated fails. The time axis of \<open>study_gap\<close> gives an estimated rate of
  10 Hz. The window from 0 to 12 seconds contains every sample. Windowed mode measures
  the episode by the time axis, 11 seconds, and emits one apnea; whole-study mode
  measures it by samples, one sample against a gate of 100, and counts none.
\<close>

theorem modes_disagree_on_gap:
  "compute_sampling_rate (time study_gap) = 10
   \<and> detect_respiratory_events study_gap 0 12
       = [\<lparr>ev_type = Apnea, start_time = 1 / 5, end_time = 56 / 5, duration = 11\<rparr>]
   \<and> map_sum id (\<lambda>r. (total_apneas r, res_hypopneas r)) (analyze_full_study 10 study_gap)
       = Inr (0, 0)"
  by code_simp

end
